theory Spec2Isabelle
  imports Main "HOL-Library.AList" "HOL-Library.Multiset"
begin

section \<open>RDF terms and triples\<close>

text \<open>
  The code works on RDF/JS terms. A term has a \<^verbatim>\<open>termType\<close> and a \<^verbatim>\<open>value\<close>; the three
  kinds that occur in a delta are named nodes (IRIs), blank nodes and literals. A literal's
  datatype and language tag play no part in the functions below and are left out.
\<close>

type_synonym UUID = string
type_synonym Iri = string

datatype rdf_term = NamedNode string | BlankNode string | Literal string

fun termType :: "rdf_term \<Rightarrow> string" where
  "termType (NamedNode v) = ''NamedNode''"
| "termType (BlankNode v) = ''BlankNode''"
| "termType (Literal v) = ''Literal''"

fun term_value :: "rdf_term \<Rightarrow> string" where
  "term_value (NamedNode v) = v"
| "term_value (BlankNode v) = v"
| "term_value (Literal v) = v"

record triple =
  subject :: rdf_term
  predicate :: rdf_term
  object :: rdf_term

text \<open>\<^verbatim>\<open>rdf.quad(s, p, o)\<close> of the RDF factory.\<close>

definition rdf_quad :: "rdf_term \<Rightarrow> rdf_term \<Rightarrow> rdf_term \<Rightarrow> triple" where
  "rdf_quad s p ob = \<lparr>subject = s, predicate = p, object = ob\<rparr>"

text \<open>
  The vocabulary constants of the \<^verbatim>\<open>ns\<close> module (\<^verbatim>\<open>RDF.type\<close>, \<^verbatim>\<open>RDF.Statement\<close>,
  \<^verbatim>\<open>RDF.subject\<close>, \<^verbatim>\<open>RDF.predicate\<close>, \<^verbatim>\<open>RDF.object\<close>, \<^verbatim>\<open>M_LD.tid\<close>). The module is not
  among the source files; the values are the IRIs of the RDF reification vocabulary and the
  m-ld TID property. Only their being pairwise different matters below.
\<close>

definition RDF_base :: Iri where
  "RDF_base = ''http://www.w3.org/1999/02/22-rdf-syntax-ns#''"

definition RDF_type :: Iri where
  "RDF_type = RDF_base @ ''type''"

definition RDF_Statement :: Iri where
  "RDF_Statement = RDF_base @ ''Statement''"

definition RDF_subject :: Iri where
  "RDF_subject = RDF_base @ ''subject''"

definition RDF_predicate :: Iri where
  "RDF_predicate = RDF_base @ ''predicate''"

definition RDF_object :: Iri where
  "RDF_object = RDF_base @ ''object''"

definition M_LD_tid :: Iri where
  "M_LD_tid = ''http://m-ld.org/#tid''"

section \<open>Reification of triples with their transaction ids\<close>

text \<open>
  \<^verbatim>\<open>unreify\<close> folds the reification statements into a JavaScript object keyed by the
  reification id (the value of the statement's subject). Each entry starts as
  \<^verbatim>\<open>[{}, []]\<close>: a triple with no field set and no TIDs. The object is an association list
  here: assigning to an existing key keeps its place, a new key goes to the end, and
  \<^verbatim>\<open>Object.values\<close> lists the entries (for keys that are not array indices, in that order).
\<close>

record ptriple =
  subject_opt :: "rdf_term option"
  predicate_opt :: "rdf_term option"
  object_opt :: "rdf_term option"

definition empty_ptriple :: ptriple where
  "empty_ptriple = \<lparr>subject_opt = None, predicate_opt = None, object_opt = None\<rparr>"

definition unreify_step ::
  "(string \<times> ptriple \<times> UUID list) list \<Rightarrow> triple \<Rightarrow> (string \<times> ptriple \<times> UUID list) list" where
  "unreify_step rids reification =
     (let rid = term_value (subject reification);
          entry = (case map_of rids rid of Some e \<Rightarrow> e | None \<Rightarrow> (empty_ptriple, []));
          tr = fst entry;
          tids = snd entry;
          p = term_value (predicate reification);
          ob = object reification;
          entry' =
            (if p = RDF_subject then
               (if termType ob = ''NamedNode'' then tr\<lparr>subject_opt := Some ob\<rparr> else tr, tids)
             else if p = RDF_predicate then
               (if termType ob = ''NamedNode'' then tr\<lparr>predicate_opt := Some ob\<rparr> else tr, tids)
             else if p = RDF_object then (tr\<lparr>object_opt := Some ob\<rparr>, tids)
             else if p = M_LD_tid then (tr, tids @ [term_value ob])
             else (tr, tids))
      in AList.update rid entry' rids)"

definition unreify :: "triple list \<Rightarrow> (ptriple \<times> UUID list) list" where
  "unreify reifications = map snd (foldl unreify_step [] reifications)"

text \<open>
  \<^verbatim>\<open>MeldEncoding.reifyTriplesTids\<close>. The entries of the \<^verbatim>\<open>TripleMap\<close> are a list of
  (triple, TIDs) pairs. Every entry gets a blank node from \<^verbatim>\<open>rdf.blankNode()\<close>; the labels
  the factory hands out are the parameter \<open>blank\<close>, the \<open>n\<close>-th call returning \<open>blank n\<close>.
\<close>

definition reifyTripleTids :: "rdf_term \<Rightarrow> triple \<Rightarrow> UUID list \<Rightarrow> triple list" where
  "reifyTripleTids rid t tids =
     [rdf_quad rid (NamedNode RDF_type) (NamedNode RDF_Statement),
      rdf_quad rid (NamedNode RDF_subject) (subject t),
      rdf_quad rid (NamedNode RDF_predicate) (predicate t),
      rdf_quad rid (NamedNode RDF_object) (object t)]
     @ map (\<lambda>tid. rdf_quad rid (NamedNode M_LD_tid) (Literal tid)) tids"

fun reifyTriplesTids :: "(nat \<Rightarrow> string) \<Rightarrow> nat \<Rightarrow> (triple \<times> UUID list) list \<Rightarrow> triple list" where
  "reifyTriplesTids blank n [] = []"
| "reifyTriplesTids blank n ((t, tids) # rest) =
     reifyTripleTids (BlankNode (blank n)) t tids @ reifyTriplesTids blank (Suc n) rest"

text \<open>What \<^verbatim>\<open>unreify\<close> is expected to give back for a triple: all three fields set.\<close>

definition as_ptriple :: "triple \<Rightarrow> ptriple" where
  "as_ptriple t =
     \<lparr>subject_opt = Some (subject t), predicate_opt = Some (predicate t),
      object_opt = Some (object t)\<rparr>"

definition isIri :: "rdf_term \<Rightarrow> bool" where
  "isIri x = (termType x = ''NamedNode'')"

definition iriTriple :: "triple \<times> UUID list \<Rightarrow> bool" where
  "iriTriple e = (isIri (subject (fst e)) \<and> isIri (predicate (fst e)))"


section \<open>Patches and the quad store\<close>

text \<open>
  \<^verbatim>\<open>PatchQuads\<close> (dataset/index.ts): the quads to delete and the quads to insert.
  \<^verbatim>\<open>SuSetDataset\<close> also builds a patch from one of the two lists alone, the other being empty.
\<close>

record 'q patch =
  oldQuads :: "'q list"
  newQuads :: "'q list"

definition PatchQuads :: "'q list \<Rightarrow> 'q list \<Rightarrow> 'q patch" where
  "PatchQuads old new = \<lparr>oldQuads = old, newQuads = new\<rparr>"

definition patch_concat :: "'q patch \<Rightarrow> 'q patch \<Rightarrow> 'q patch" where
  "patch_concat p q = PatchQuads (oldQuads p @ oldQuads q) (newQuads p @ newQuads q)"

text \<open>
  Modelled from the spec: \<^verbatim>\<open>PatchQuads.removeAll('newQuads', quads)\<close>, which is called by
  \<^verbatim>\<open>applyConstraint\<close> and is not in the source files. The spec has the repair-deleted quads
  subtracted from the original patch's new quads, and those that were subtracted reported in
  the repair's delta. The result is the removed quads and the patch without them.
\<close>

definition patch_removeAll_newQuads :: "'q patch \<Rightarrow> 'q list \<Rightarrow> 'q list \<times> 'q patch" where
  "patch_removeAll_newQuads p quads =
     (filter (\<lambda>q. q \<in> set quads) (newQuads p),
      p\<lparr>newQuads := filter (\<lambda>q. q \<notin> set quads) (newQuads p)\<rparr>)"

definition patch_map :: "('a \<Rightarrow> 'b) \<Rightarrow> 'a patch \<Rightarrow> 'b patch" where
  "patch_map f p = PatchQuads (map f (oldQuads p)) (map f (newQuads p))"

text \<open>
  The deltas, updates and journal entries of \<^verbatim>\<open>SuSetDataset\<close>. A delta carries its
  transaction id, the inserted triples and the reifications of the deleted triples. Its JSON-LD
  encoding (\<^verbatim>\<open>MeldJson\<close>) is outside the source files and is taken as the identity: a
  \<^verbatim>\<open>JsonDelta\<close> is the delta it decodes to. A \<^verbatim>\<open>MeldUpdate\<close> lists quads where the code lists
  the JSON-LD subjects flattened from them.
\<close>

record meld_delta =
  d_tid :: UUID
  d_insert :: "triple list"
  d_delete :: "triple list"

record meld_update =
  u_ticks :: nat
  u_delete :: "triple list"
  u_insert :: "triple list"

record 'c delta_message =
  m_time :: 'c
  m_data :: meld_delta

record 'c journal_entry =
  e_time :: 'c
  e_remote :: "'c option"
  e_delta :: meld_delta

datatype error = MeldError string | TypeError | Error string

text \<open>
  One quad store holds three graphs: the default graph with the user's triples, the graph
  \<^verbatim>\<open>qs:tids\<close> whose quads pair a subject (the id of a triple, or \<^verbatim>\<open>qs:all\<close>) with a TID, and
  the graph \<^verbatim>\<open>qs:control\<close> with the journal. A quad of a transaction's patch is tagged with
  its graph.
\<close>

datatype 'c store_quad =
    DataQuad triple
  | TidQuad string UUID
  | EntryQuad "'c journal_entry"
  | TimeQuad 'c

record 'c suset =
  graph :: "triple list"
  tidsGraph :: "(string \<times> UUID) list"
  journal_entries :: "'c journal_entry list"
  journal_time :: 'c
  updateSource :: "meld_update list"
  closed :: bool

fun dataOf :: "'c store_quad \<Rightarrow> triple list" where
  "dataOf (DataQuad t) = [t]"
| "dataOf _ = []"

fun tidOf :: "'c store_quad \<Rightarrow> (string \<times> UUID) list" where
  "tidOf (TidQuad s tid) = [(s, tid)]"
| "tidOf _ = []"

fun entryOf :: "'c store_quad \<Rightarrow> 'c journal_entry list" where
  "entryOf (EntryQuad e) = [e]"
| "entryOf _ = []"

fun timeOf :: "'c store_quad \<Rightarrow> 'c list" where
  "timeOf (TimeQuad c) = [c]"
| "timeOf _ = []"

text \<open>
  \<^verbatim>\<open>store.patch(oldQuads, newQuads)\<close> of the quadstore library: one atomic batch that deletes
  the old quads and then puts the new ones, so a quad in both lists stays. A graph is kept as
  the list of its quads, without repetition. The journal's entry quads form the chain of
  entries in the order they were added, every appended entry being a new subject of the
  control graph, and the journal's time is a single quad that a new one replaces.
\<close>

definition quads_patch :: "'a list \<Rightarrow> 'a list \<Rightarrow> 'a list \<Rightarrow> 'a list" where
  "quads_patch old new xs =
     (let kept = filter (\<lambda>q. q \<notin> set old) xs
      in kept @ filter (\<lambda>q. q \<notin> set kept) (remdups new))"

definition store_patch :: "'c store_quad patch \<Rightarrow> 'c suset \<Rightarrow> 'c suset" where
  "store_patch p s =
     s\<lparr>graph := quads_patch (concat (map dataOf (oldQuads p))) (concat (map dataOf (newQuads p)))
                 (graph s),
       tidsGraph := quads_patch (concat (map tidOf (oldQuads p))) (concat (map tidOf (newQuads p)))
                 (tidsGraph s),
       journal_entries :=
         filter (\<lambda>e. e \<notin> set (concat (map entryOf (oldQuads p)))) (journal_entries s)
         @ concat (map entryOf (newQuads p)),
       journal_time := (case concat (map timeOf (newQuads p)) of
                          [] \<Rightarrow> journal_time s
                        | c # cs \<Rightarrow> last (c # cs))\<rparr>"

text \<open>
  \<^verbatim>\<open>QuadStoreDataset.transact\<close>: await \<^verbatim>\<open>prepare\<close>, apply the patch it returns when there is
  one, and return its value. A rejection of \<^verbatim>\<open>prepare\<close> leaves the store alone and is the
  rejection of the transaction. \<^verbatim>\<open>SuSetDataset\<close> passes \<^verbatim>\<open>prepare\<close> in an object and gets the
  patch and the value back in one (\<^verbatim>\<open>{ patch, value }\<close>), which is read here as the pair of
  the source's \<^verbatim>\<open>[patch, rtn]\<close>. \<^verbatim>\<open>prepare\<close> is a state transformer because the callers'
  bodies push to \<^verbatim>\<open>updateSource\<close> before they return. The lock the body runs under is
  treated further down.
\<close>

definition QuadStoreDataset_transact ::
  "('c suset \<Rightarrow> 'c suset \<times> (error + ('c store_quad patch option \<times> 'v))) \<Rightarrow>
   'c suset \<Rightarrow> 'c suset \<times> (error + 'v)" where
  "QuadStoreDataset_transact prepare s =
     (case prepare s of
        (s1, Inl err) \<Rightarrow> (s1, Inl err)
      | (s1, Inr (patch, rtn)) \<Rightarrow>
          ((case patch of None \<Rightarrow> s1 | Some p \<Rightarrow> store_patch p s1), Inr rtn))"

text \<open>The decorator \<^verbatim>\<open>@SuSetDataset.checkNotClosed.async\<close>.\<close>

definition checkNotClosed ::
  "('c suset \<Rightarrow> 'c suset \<times> (error + 'v)) \<Rightarrow> 'c suset \<Rightarrow> 'c suset \<times> (error + 'v)" where
  "checkNotClosed f s = (if closed s then (s, Inl (MeldError ''Clone has closed'')) else f s)"


section \<open>The collaborators of SuSetDataset\<close>

text \<open>
  \<^verbatim>\<open>SuSetDataset\<close> calls code that is not among the source files: the tree clock, the triple
  hash, the constraint and the query engine behind \<^verbatim>\<open>JrqlGraph.write\<close>. They are parameters of
  the model, so what is proved holds for every clock, hash, constraint and query engine:
  \<^item> \<open>ticks\<close>, \<open>getTicks\<close> and \<open>anyLt\<close> are \<^verbatim>\<open>TreeClock.ticks\<close>, \<^verbatim>\<open>time.getTicks(other)\<close> and
    \<^verbatim>\<open>time.anyLt(other, 'includeIds')\<close> for a clock type \<open>'c\<close>;
  \<^item> \<open>tripleId\<close> is \<^verbatim>\<open>tripleId\<close>, the prefixed hash of a triple;
  \<^item> \<open>constraint_check\<close> is \<^verbatim>\<open>constraint.check(update, read)\<close> against the data graph, with
    \<open>Some err\<close> for a rejection; \<open>constraint_apply\<close> is \<^verbatim>\<open>constraint.apply(update, read)\<close>, with
    \<open>None\<close> for \<^verbatim>\<open>null\<close> and otherwise the repair, a write request of type \<open>'w\<close>;
  \<^item> \<open>graph_write\<close> is \<^verbatim>\<open>JrqlGraph.write\<close>, which turns a write request into a patch of the data
    graph or throws.
\<close>

record ('c, 'w) deps =
  ticks :: "'c \<Rightarrow> nat"
  getTicks :: "'c \<Rightarrow> 'c \<Rightarrow> nat option"
  anyLt :: "'c \<Rightarrow> 'c \<Rightarrow> bool"
  tripleId :: "triple \<Rightarrow> string"
  constraint_check :: "meld_update \<Rightarrow> triple list \<Rightarrow> error option"
  constraint_apply :: "meld_update \<Rightarrow> triple list \<Rightarrow> 'w option"
  graph_write :: "'w \<Rightarrow> triple list \<Rightarrow> error + triple patch"

section \<open>The journal\<close>

text \<open>
  Modelled from the spec: \<^verbatim>\<open>SuSetJournal\<close> and \<^verbatim>\<open>SuSetJournalEntry\<close>, which are not in the
  source files. The spec's journal is an append-only chain of entries, each with its local
  time, the remote time when the delta came from a peer, and the delta; the journal also
  stores the current local time, and its tail is the most recent entry. \<^verbatim>\<open>createNext\<close> gives
  the patch that appends an entry and the entry; \<^verbatim>\<open>setNext\<close> gives the patch that moves the
  tail to the entry and saves the local time; \<^verbatim>\<open>findEntry(ticks)\<close> locates the entry whose
  local time has that many ticks, from which \<^verbatim>\<open>entry.next()\<close> walks the chain to the tail.
  The chain is the list of the entries in the order they were appended, so the tail is its
  last entry and \<^verbatim>\<open>setNext\<close> has only the time to store; what \<^verbatim>\<open>findEntry\<close> gives is the
  found entry with the entries after it, and the empty list when there is none. The hash
  chain is left out: no function below reads it.
\<close>

definition createNext ::
  "meld_delta \<Rightarrow> 'c \<Rightarrow> 'c option \<Rightarrow> 'c store_quad patch \<times> 'c journal_entry" where
  "createNext delta localTime remoteTime =
     (let entry = \<lparr>e_time = localTime, e_remote = remoteTime, e_delta = delta\<rparr>
      in (PatchQuads [] [EntryQuad entry], entry))"

definition setNext :: "'c suset \<Rightarrow> 'c journal_entry \<Rightarrow> 'c \<Rightarrow> 'c store_quad patch" where
  "setNext s entry localTime = PatchQuads [TimeQuad (journal_time s)] [TimeQuad localTime]"

definition findEntry :: "('c, 'w) deps \<Rightarrow> 'c suset \<Rightarrow> nat \<Rightarrow> 'c journal_entry list" where
  "findEntry D s n = dropWhile (\<lambda>e. ticks D (e_time e) \<noteq> n) (journal_entries s)"

section \<open>SuSetDataset\<close>

definition asUpdate :: "('c, 'w) deps \<Rightarrow> 'c \<Rightarrow> triple patch \<Rightarrow> meld_update" where
  "asUpdate D time p =
     \<lparr>u_ticks = ticks D time, u_delete = oldQuads p, u_insert = newQuads p\<rparr>"

text \<open>
  The TID graph. \<^verbatim>\<open>knowsTid\<close> is the test
  \<^verbatim>\<open>tidsGraph.find1({ '@id': 'qs:all', tid: [txc.id] })\<close>, which gives the subject of a matching
  quad or the empty string.
\<close>

definition qs_all :: string where
  "qs_all = ''qs:all''"

definition knowsTid :: "'c suset \<Rightarrow> UUID \<Rightarrow> bool" where
  "knowsTid s tid = ((qs_all, tid) \<in> set (tidsGraph s))"

definition newTid :: "UUID \<Rightarrow> (string \<times> UUID) patch" where
  "newTid tid = PatchQuads [] [(qs_all, tid)]"

definition newTriplesTid :: "('c, 'w) deps \<Rightarrow> triple list \<Rightarrow> UUID \<Rightarrow> (string \<times> UUID) patch" where
  "newTriplesTid D triples tid = PatchQuads [] (map (\<lambda>t. (tripleId D t, tid)) triples)"

definition findTripleTids :: "'c suset \<Rightarrow> string \<Rightarrow> (string \<times> UUID) list" where
  "findTripleTids s theTripleId = filter (\<lambda>q. fst q = theTripleId) (tidsGraph s)"

text \<open>\<^verbatim>\<open>TripleTidQuads\<close>: a triple with the TID quads found for it.\<close>

definition findTriplesTids ::
  "('c, 'w) deps \<Rightarrow> 'c suset \<Rightarrow> triple list \<Rightarrow> (triple \<times> (string \<times> UUID) list) list" where
  "findTriplesTids D s quads = map (\<lambda>q. (q, findTripleTids s (tripleId D q))) quads"

definition asTripleTids :: "triple \<times> (string \<times> UUID) list \<Rightarrow> triple \<times> UUID list" where
  "asTripleTids tt = (fst tt, map snd (snd tt))"

definition txnTidPatches ::
  "('c, 'w) deps \<Rightarrow> UUID \<Rightarrow> triple list \<Rightarrow> (triple \<times> (string \<times> UUID) list) list \<Rightarrow>
   (string \<times> UUID) patch \<times> (string \<times> UUID) patch" where
  "txnTidPatches D tid ins deletedTriplesTids =
     (newTid tid,
      patch_concat (newTriplesTid D ins tid) (PatchQuads (concat (map snd deletedTriplesTids)) []))"

text \<open>
  \<^verbatim>\<open>txnDelta\<close>: the delta of a transaction. \<^verbatim>\<open>TripleTids.reify\<close> is the reification above;
  \<open>blank\<close> gives the labels of the blank nodes it mints.
\<close>

definition txnDelta ::
  "(nat \<Rightarrow> string) \<Rightarrow> UUID \<Rightarrow> triple list \<Rightarrow> (triple \<times> UUID list) list \<Rightarrow> meld_delta" where
  "txnDelta blank tid ins deletedTriplesTids =
     \<lparr>d_tid = tid, d_insert = ins, d_delete = reifyTriplesTids blank 0 deletedTriplesTids\<rparr>"

definition transactionPatch ::
  "triple patch \<Rightarrow> (string \<times> UUID) patch \<Rightarrow> (string \<times> UUID) patch \<Rightarrow> 'c store_quad patch \<Rightarrow>
   'c store_quad patch" where
  "transactionPatch dataPatch allTidsPatch tripleTidPatch journaling =
     patch_concat (patch_concat (patch_concat (patch_map DataQuad dataPatch)
       (patch_map (\<lambda>q. TidQuad (fst q) (snd q)) allTidsPatch))
       (patch_map (\<lambda>q. TidQuad (fst q) (snd q)) tripleTidPatch)) journaling"


text \<open>
  \<^verbatim>\<open>applyConstraint\<close>. The result is the caller's patch, which the code mutates in place, and
  the constraint's transaction when the constraint asked for a repair. \<open>cxTid\<close> is the
  transaction id that \<^verbatim>\<open>uuid()\<close> mints for the repair.
\<close>

record constraint_txn =
  cx_delta :: meld_delta
  cx_update :: meld_update
  cx_patch :: "triple patch"
  cx_allTidsPatch :: "(string \<times> UUID) patch"
  cx_tidPatch :: "(string \<times> UUID) patch"

definition applyConstraint ::
  "('c, 'w) deps \<Rightarrow> UUID \<Rightarrow> (nat \<Rightarrow> string) \<Rightarrow> 'c suset \<Rightarrow> triple patch \<Rightarrow> meld_update \<Rightarrow>
   UUID \<Rightarrow> 'c \<Rightarrow> error + (triple patch \<times> constraint_txn option)" where
  "applyConstraint D cxTid blank s to_patch to_update to_tid localTime =
     (case constraint_apply D to_update (graph s) of
        None \<Rightarrow> Inr (to_patch, None)
      | Some result \<Rightarrow>
          (case graph_write D result (graph s) of
             Inl err \<Rightarrow> Inl err
           | Inr patch \<Rightarrow>
               (let update = asUpdate D localTime patch;
                    deletedExistingTidQuads = findTriplesTids D s (oldQuads patch);
                    removal = patch_removeAll_newQuads to_patch (oldQuads patch);
                    deleted = fst removal;
                    deletedTriplesTids =
                      map asTripleTids deletedExistingTidQuads
                      @ map (\<lambda>delQuad. (delQuad, [to_tid])) deleted;
                    delta = txnDelta blank cxTid (newQuads patch) deletedTriplesTids;
                    tidPatches = txnTidPatches D cxTid (newQuads patch) deletedExistingTidQuads
                in Inr (snd removal,
                     Some \<lparr>cx_delta = delta, cx_update = update, cx_patch = patch,
                           cx_allTidsPatch = fst tidPatches, cx_tidPatch = snd tidPatches\<rparr>))))"

text \<open>
  \<^verbatim>\<open>SuSetDataset.apply\<close>. The reducer over the unreified deletions comes first. A reification
  that lacks a usable subject, predicate or object leaves that field of the triple undefined;
  hashing such a triple reads a property of \<^verbatim>\<open>undefined\<close>, the \<^verbatim>\<open>TypeError\<close> below, which
  rejects \<^verbatim>\<open>prepare\<close>. \<^verbatim>\<open>toDomainQuad\<close> puts a triple into the default graph: the identity here.
\<close>

definition asTriple :: "ptriple \<Rightarrow> triple option" where
  "asTriple pt =
     (case (subject_opt pt, predicate_opt pt, object_opt pt) of
        (Some s, Some p, Some ob) \<Rightarrow> Some \<lparr>subject = s, predicate = p, object = ob\<rparr>
      | _ \<Rightarrow> None)"

definition applyDeletion ::
  "('c, 'w) deps \<Rightarrow> 'c suset \<Rightarrow> error + (triple patch \<times> (string \<times> UUID) patch) \<Rightarrow>
   ptriple \<times> UUID list \<Rightarrow> error + (triple patch \<times> (string \<times> UUID) patch)" where
  "applyDeletion D s acc del =
     (case acc of
        Inl err \<Rightarrow> Inl err
      | Inr (patch, tripleTidPatch) \<Rightarrow>
          (case asTriple (fst del) of
             None \<Rightarrow> Inl TypeError
           | Some triple \<Rightarrow>
               (let theirTids = snd del;
                    ourTripleTids = findTripleTids s (tripleId D triple);
                    toRemove = filter (\<lambda>tripleTid. snd tripleTid \<in> set theirTids) ourTripleTids;
                    patch' = (if length toRemove = length ourTripleTids
                              then patch\<lparr>oldQuads := oldQuads patch @ [triple]\<rparr> else patch)
                in Inr (patch', patch_concat tripleTidPatch (PatchQuads toRemove [])))))"

definition apply_prepare ::
  "('c, 'w) deps \<Rightarrow> UUID \<Rightarrow> (nat \<Rightarrow> string) \<Rightarrow> meld_delta \<Rightarrow> 'c \<Rightarrow> 'c \<Rightarrow> 'c \<Rightarrow> 'c suset \<Rightarrow>
   'c suset \<times> (error + ('c store_quad patch option \<times> 'c delta_message option))" where
  "apply_prepare D cxTid blank msgData msgTime arrivalTime localTime s =
     (if \<not> knowsTid s (d_tid msgData) then
        (let delta = msgData;
             allTidsPatch = newTid (d_tid delta)
         in case foldl (applyDeletion D s) (Inr (PatchQuads [] (d_insert delta), PatchQuads [] []))
                  (unreify (d_delete delta)) of
              Inl err \<Rightarrow> (s, Inl err)
            | Inr (patch, tidPatch) \<Rightarrow>
                (let update = asUpdate D arrivalTime patch
                 in case applyConstraint D cxTid blank s patch update (d_tid msgData) localTime of
                      Inl err \<Rightarrow> (s, Inl err)
                    | Inr (patch', cxn) \<Rightarrow>
                        (let tidPatch' =
                               patch_concat tidPatch (newTriplesTid D (newQuads patch') (d_tid delta));
                             created = createNext delta arrivalTime (Some msgTime)
                         in case cxn of
                              None \<Rightarrow>
                                (let journaling =
                                       patch_concat (fst created) (setNext s (snd created) localTime)
                                 in (s\<lparr>updateSource := updateSource s @ [update]\<rparr>,
                                     Inr (Some (transactionPatch patch' allTidsPatch tidPatch'
                                                  journaling), None)))
                            | Some cx \<Rightarrow>
                                (let cxCreated = createNext (cx_delta cx) localTime None;
                                     journaling =
                                       patch_concat (patch_concat (fst created) (fst cxCreated))
                                         (setNext s (snd cxCreated) localTime)
                                 in (s\<lparr>updateSource := updateSource s @ [update, cx_update cx]\<rparr>,
                                     Inr (Some (transactionPatch
                                                  (patch_concat patch' (cx_patch cx))
                                                  (patch_concat allTidsPatch (cx_allTidsPatch cx))
                                                  (patch_concat tidPatch' (cx_tidPatch cx))
                                                  journaling),
                                          Some \<lparr>m_time = localTime, m_data = cx_delta cx\<rparr>))))))
      else (s, Inr (None, None)))"

definition SuSetDataset_apply ::
  "('c, 'w) deps \<Rightarrow> UUID \<Rightarrow> (nat \<Rightarrow> string) \<Rightarrow> meld_delta \<Rightarrow> 'c \<Rightarrow> 'c \<Rightarrow> 'c \<Rightarrow> 'c suset \<Rightarrow>
   'c suset \<times> (error + 'c delta_message option)" where
  "SuSetDataset_apply D cxTid blank msgData msgTime arrivalTime localTime =
     checkNotClosed (QuadStoreDataset_transact
       (apply_prepare D cxTid blank msgData msgTime arrivalTime localTime))"

text \<open>
  The invariant of the TID graph in the specification: every triple of the data graph has at
  least one TID. \<open>covered\<close> and \<open>removed\<close> name what the reducer of \<^verbatim>\<open>apply\<close> works out for
  one deleted triple with their TIDs: whether theirs hold all of ours, and the TID quads of
  ours that are among theirs.
\<close>

definition tids_cover_graph :: "('c, 'w) deps \<Rightarrow> 'c suset \<Rightarrow> bool" where
  "tids_cover_graph D s = list_all (\<lambda>t. findTripleTids s (tripleId D t) \<noteq> []) (graph s)"

definition covered :: "('c, 'w) deps \<Rightarrow> 'c suset \<Rightarrow> triple \<times> UUID list \<Rightarrow> bool" where
  "covered D s e = (snd ` set (findTripleTids s (tripleId D (fst e))) \<subseteq> set (snd e))"

definition removed ::
  "('c, 'w) deps \<Rightarrow> 'c suset \<Rightarrow> triple \<times> UUID list \<Rightarrow> (string \<times> UUID) list" where
  "removed D s e = filter (\<lambda>q. snd q \<in> set (snd e)) (findTripleTids s (tripleId D (fst e)))"

text \<open>
  \<^verbatim>\<open>SuSetDataset.transact\<close>. \<open>tid\<close> is the new transaction id from \<^verbatim>\<open>uuid()\<close>; \<open>prepare\<close> is
  the caller's function, which reads the data graph and gives the time and the patch of the
  write, or throws.
\<close>

definition transact_prepare ::
  "('c, 'w) deps \<Rightarrow> UUID \<Rightarrow> (nat \<Rightarrow> string) \<Rightarrow> (triple list \<Rightarrow> error + ('c \<times> triple patch)) \<Rightarrow>
   'c suset \<Rightarrow> 'c suset \<times> (error + ('c store_quad patch option \<times> 'c delta_message))" where
  "transact_prepare D tid blank prepare s =
     (case prepare (graph s) of
        Inl err \<Rightarrow> (s, Inl err)
      | Inr (time, patch) \<Rightarrow>
          (let update = asUpdate D time patch
           in case constraint_check D update (graph s) of
                Some err \<Rightarrow> (s, Inl err)
              | None \<Rightarrow>
                  (let deletedTriplesTids = findTriplesTids D s (oldQuads patch);
                       delta = txnDelta blank tid (newQuads patch)
                                 (map asTripleTids deletedTriplesTids);
                       tidPatches = txnTidPatches D tid (newQuads patch) deletedTriplesTids;
                       created = createNext delta time None;
                       journaling = patch_concat (fst created) (setNext s (snd created) time)
                   in (s\<lparr>updateSource := updateSource s @ [update]\<rparr>,
                       Inr (Some (transactionPatch patch (fst tidPatches) (snd tidPatches)
                                    journaling),
                            \<lparr>m_time = time, m_data = delta\<rparr>)))))"

definition SuSetDataset_transact ::
  "('c, 'w) deps \<Rightarrow> UUID \<Rightarrow> (nat \<Rightarrow> string) \<Rightarrow> (triple list \<Rightarrow> error + ('c \<times> triple patch)) \<Rightarrow>
   'c suset \<Rightarrow> 'c suset \<times> (error + 'c delta_message)" where
  "SuSetDataset_transact D tid blank prepare =
     checkNotClosed (QuadStoreDataset_transact (transact_prepare D tid blank prepare))"

text \<open>
  \<^verbatim>\<open>emitJournalFrom\<close> and \<^verbatim>\<open>operationsSince\<close>. The chain of entries that \<^verbatim>\<open>entry.next()\<close>
  walks is a list, and what the subscriber is sent is a list of notifications. The subscriber
  stays subscribed for the whole walk, and \<open>isClosed\<close> is \<^verbatim>\<open>dataset.closed\<close> during it.
\<close>

datatype 'c notification = Next "'c delta_message" | Failed error | Complete

fun emitJournalFrom ::
  "bool \<Rightarrow> ('c journal_entry \<Rightarrow> bool) \<Rightarrow> 'c journal_entry list \<Rightarrow> 'c notification list" where
  "emitJournalFrom isClosed flt [] = [Complete]"
| "emitJournalFrom isClosed flt (entry # rest) =
     (if isClosed then [Failed (MeldError ''Clone has closed'')]
      else (if flt entry then [Next \<lparr>m_time = e_time entry, m_data = e_delta entry\<rparr>] else [])
           @ emitJournalFrom isClosed flt rest)"

text \<open>
  The \<^verbatim>\<open>Observable\<close> that \<^verbatim>\<open>operationsSince\<close> returns is the closure of the found entry and
  the requested time; \<open>subscribe\<close> runs it against the dataset as it is when the subscriber
  arrives.
\<close>

record 'c revup_observable =
  found_ticks :: nat
  since :: 'c

definition subscribe ::
  "('c, 'w) deps \<Rightarrow> 'c revup_observable \<Rightarrow> 'c suset \<Rightarrow> 'c notification list" where
  "subscribe D obs s =
     emitJournalFrom (closed s) (\<lambda>entry. anyLt D (since obs) (e_time entry))
       (findEntry D s (found_ticks obs))"

definition operationsSince_prepare ::
  "('c, 'w) deps \<Rightarrow> 'c \<Rightarrow> 'c suset \<Rightarrow>
   'c suset \<times> (error + ('c store_quad patch option \<times> 'c revup_observable option))" where
  "operationsSince_prepare D time s =
     (case getTicks D time (journal_time s) of
        None \<Rightarrow> (s, Inr (None, None))
      | Some n \<Rightarrow>
          (if findEntry D s n \<noteq> []
           then (s, Inr (None, Some \<lparr>found_ticks = n, since = time\<rparr>))
           else (s, Inr (None, None))))"

definition SuSetDataset_operationsSince ::
  "('c, 'w) deps \<Rightarrow> 'c \<Rightarrow> 'c suset \<Rightarrow> 'c suset \<times> (error + 'c revup_observable option)" where
  "SuSetDataset_operationsSince D time =
     checkNotClosed (QuadStoreDataset_transact (operationsSince_prepare D time))"


section \<open>The transaction lock of QuadStoreDataset\<close>

text \<open>
  \<^verbatim>\<open>QuadStoreDataset.transact\<close> runs its body under
  \<^verbatim>\<open>new AsyncLock().acquire(this.id, ...)\<close>. An \<^verbatim>\<open>AsyncLock\<close> of the async-lock library keeps
  the keys that are held in that instance: \<^verbatim>\<open>acquire\<close> starts the function at once when the key is
  free in the instance, and queues it behind the holder otherwise. \<open>acquire\<close> gives the lock
  with the key held when the function starts at once, and nothing when it has to wait.
\<close>

record async_lock =
  held :: "string set"

definition new_AsyncLock :: async_lock where
  "new_AsyncLock = \<lparr>held = {}\<rparr>"

definition acquire :: "async_lock \<Rightarrow> string \<Rightarrow> async_lock option" where
  "acquire lock key =
     (if key \<in> held lock then None else Some (lock\<lparr>held := insert key (held lock)\<rparr>))"

text \<open>
  Calls of \<^verbatim>\<open>transact\<close> on one dataset, as the events of an interleaving. A call that is
  let in starts its \<^verbatim>\<open>prepare\<close>, which reads the store; when a prepared transaction commits, its
  patch reaches the store and its lock is released. The store is the list of the transactions
  committed so far, a running transaction is kept with the store its \<^verbatim>\<open>prepare\<close> saw, and
  \<open>seen\<close> records that for the transactions that are done. \<open>lock_for\<close> is the lock a call
  acquires, given the run so far.
\<close>

datatype txn_event = Call nat | Commit nat

record dataset_run =
  run_id :: string
  committed :: "nat list"
  preparing :: "(nat \<times> nat list) list"
  seen :: "(nat \<times> nat list) list"

definition run_step ::
  "(dataset_run \<Rightarrow> async_lock) \<Rightarrow> dataset_run \<Rightarrow> txn_event \<Rightarrow> dataset_run option" where
  "run_step lock_for r ev =
     (case ev of
        Call i \<Rightarrow>
          (case acquire (lock_for r) (run_id r) of
             None \<Rightarrow> None
           | Some lock \<Rightarrow> Some (r\<lparr>preparing := preparing r @ [(i, committed r)]\<rparr>))
      | Commit i \<Rightarrow>
          (case map_of (preparing r) i of
             None \<Rightarrow> None
           | Some saw \<Rightarrow>
               Some (r\<lparr>committed := committed r @ [i],
                       preparing := filter (\<lambda>t. fst t \<noteq> i) (preparing r),
                       seen := seen r @ [(i, saw)]\<rparr>)))"

fun run_events ::
  "(dataset_run \<Rightarrow> async_lock) \<Rightarrow> dataset_run \<Rightarrow> txn_event list \<Rightarrow> dataset_run option" where
  "run_events lock_for r [] = Some r"
| "run_events lock_for r (ev # evs) =
     (case run_step lock_for r ev of None \<Rightarrow> None | Some r' \<Rightarrow> run_events lock_for r' evs)"

text \<open>
  The lock of the code: every call makes a new instance. And the lock of the specification,
  one for the dataset: its key is held while a transaction is running.
\<close>

definition transact_lock :: "dataset_run \<Rightarrow> async_lock" where
  "transact_lock r = new_AsyncLock"

definition per_dataset_lock :: "dataset_run \<Rightarrow> async_lock" where
  "per_dataset_lock r = \<lparr>held = (if preparing r = [] then {} else {run_id r})\<rparr>"

definition new_run :: dataset_run where
  "new_run = \<lparr>run_id = ''ds'', committed = [], preparing = [], seen = []\<rparr>"

section \<open>Update notifications and the commit\<close>













section \<open>MqttRemotes\<close>

text \<open>
  The fields of \<^verbatim>\<open>MqttRemotes\<close> that \<^verbatim>\<open>onHello\<close>, \<^verbatim>\<open>nextSendAddress\<close>, \<^verbatim>\<open>send\<close> and
  \<^verbatim>\<open>newClock\<close> touch. \<^verbatim>\<open>isGenesis\<close> is a \<^verbatim>\<open>Future\<close>: \<open>None\<close> until it is resolved, and a second
  \<^verbatim>\<open>resolve\<close> is ignored. \<open>published\<close> lists the requests handed to \<^verbatim>\<open>mqtt.publish\<close>. A send
  address is kept as the parameters the \<^verbatim>\<open>SEND_TOPIC\<close> pattern is filled with.
\<close>

record send_address =
  toId :: string
  fromId :: string
  messageId :: string

datatype request = NewClockRequest | SnapshotRequest | RevupRequest

record remotes =
  remotes_id :: string
  isGenesis :: "bool option"
  recentlySentTo :: "string set"
  published :: "(send_address \<times> request) list"

definition Future_resolve :: "'a option \<Rightarrow> 'a \<Rightarrow> 'a option" where
  "Future_resolve future v = (case future of None \<Rightarrow> Some v | Some w \<Rightarrow> Some w)"

text \<open>\<^verbatim>\<open>onHello\<close>; the payload is the \<^verbatim>\<open>id\<close> of the hello message.\<close>

definition onHello :: "remotes \<Rightarrow> string \<Rightarrow> remotes" where
  "onHello r hello_id =
     (if remotes_id r = hello_id
      then r\<lparr>isGenesis := Future_resolve (isGenesis r) True\<rparr>
      else r\<lparr>isGenesis := Future_resolve (isGenesis r) False\<rparr>)"

text \<open>
  \<^verbatim>\<open>nextSendAddress\<close>; \<open>present\<close> is what \<^verbatim>\<open>presence.present(controlTopic.address)\<close> lists at
  the time of the call.
\<close>

definition nextSendAddress :: "remotes \<Rightarrow> string \<Rightarrow> string list \<Rightarrow> remotes \<times> send_address option" where
  "nextSendAddress r msgId present =
     (let cleared = (if list_all (\<lambda>i. i \<in> recentlySentTo r) present then {} else recentlySentTo r);
          sentTo = insert (remotes_id r) cleared
      in case filter (\<lambda>i. i \<notin> sentTo) present of
           [] \<Rightarrow> (r\<lparr>recentlySentTo := sentTo\<rparr>, None)
         | to # others \<Rightarrow>
             (r\<lparr>recentlySentTo := insert to sentTo\<rparr>,
              Some \<lparr>toId = to, fromId = remotes_id r, messageId = msgId\<rparr>))"

text \<open>
  \<^verbatim>\<open>send\<close>. \<open>msgId\<close> is the message id from \<^verbatim>\<open>uuid()\<close>. The result of a request that went out
  is the id under which \<^verbatim>\<open>getResponse\<close> awaits the reply. The text of \<^verbatim>\<open>NONE_VISIBLE\<close> is in
  the \<^verbatim>\<open>MeldError\<close> module, outside the source files.
\<close>

definition NONE_VISIBLE :: string where
  "NONE_VISIBLE = ''No visible clones''"

definition MqttRemotes_send ::
  "remotes \<Rightarrow> string \<Rightarrow> string list \<Rightarrow> request \<Rightarrow> remotes \<times> (error + string)" where
  "MqttRemotes_send r msgId present req =
     (case nextSendAddress r msgId present of
        (r', None) \<Rightarrow> (r', Inl (MeldError NONE_VISIBLE))
      | (r', Some address) \<Rightarrow> (r'\<lparr>published := published r' @ [(address, req)]\<rparr>, Inr msgId))"

text \<open>
  \<^verbatim>\<open>newClock\<close>: pending while \<^verbatim>\<open>isGenesis\<close> is; \<^verbatim>\<open>TreeClock.GENESIS\<close> for a genesis clone;
  otherwise the clock of the reply to a \<^verbatim>\<open>NewClock\<close> request, that is the outcome of \<^verbatim>\<open>send\<close>.
\<close>

datatype clock_outcome = Pending | GENESIS | ClockOfReplyTo string | Rejected error

definition MqttRemotes_newClock ::
  "remotes \<Rightarrow> string \<Rightarrow> string list \<Rightarrow> remotes \<times> clock_outcome" where
  "MqttRemotes_newClock r msgId present =
     (case isGenesis r of
        None \<Rightarrow> (r, Pending)
      | Some True \<Rightarrow> (r, GENESIS)
      | Some False \<Rightarrow>
          (case MqttRemotes_send r msgId present NewClockRequest of
             (r', Inl err) \<Rightarrow> (r', Rejected err)
           | (r', Inr sent) \<Rightarrow> (r', ClockOfReplyTo sent)))"

text \<open>
  The peers \<^verbatim>\<open>send\<close> may pick, in the words of the specification: the present clones other
  than this one that are not in \<^verbatim>\<open>recentlySentTo\<close>, the set being cleared first when it holds
  every present peer. \<open>recent_peers\<close> is the set after that clearing.
\<close>

definition present_peers :: "remotes \<Rightarrow> string list \<Rightarrow> string list" where
  "present_peers r present = filter (\<lambda>i. i \<noteq> remotes_id r) present"

definition recent_peers :: "remotes \<Rightarrow> string list \<Rightarrow> string set" where
  "recent_peers r present =
     (if set (present_peers r present) \<subseteq> recentlySentTo r then {} else recentlySentTo r)"

definition eligible_peers :: "remotes \<Rightarrow> string list \<Rightarrow> string list" where
  "eligible_peers r present =
     filter (\<lambda>i. i \<notin> recent_peers r present) (present_peers r present)"

text \<open>
  \<^verbatim>\<open>recentlySentTo\<close> starts empty, and every call of \<^verbatim>\<open>nextSendAddress\<close> leaves this clone's
  own id in it.
\<close>

definition sentTo_ok :: "remotes \<Rightarrow> bool" where
  "sentTo_ok r = (recentlySentTo r = {} \<or> remotes_id r \<in> recentlySentTo r)"

text \<open>
  Requests sent one after the other while the same clones are present, each with its message
  id; and the peers that the published requests went to, in the order they were published.
\<close>

fun sends :: "remotes \<Rightarrow> string list \<Rightarrow> (string \<times> request) list \<Rightarrow> remotes" where
  "sends r present [] = r"
| "sends r present (m # ms) = sends (fst (MqttRemotes_send r (fst m) present (snd m))) present ms"

definition targets :: "remotes \<Rightarrow> string list" where
  "targets r = map (\<lambda>p. toId (fst p)) (published r)"


section \<open>A clock, a hash and a constraint to run the model with\<close>

text \<open>
  Modelled from the spec: \<^verbatim>\<open>TreeClock\<close>, whose module is not in the source files. The spec's
  clock is a binary tree whose leaves hold tick counts, one leaf being the identity of the
  process. \<open>ticks\<close> is the count on the identity leaf. \<open>getTicks self other\<close> is the count \<open>self\<close>
  holds where \<open>other\<close> has its identity leaf, or nothing when \<open>self\<close> has no leaf there.
  \<open>anyLt self other\<close> holds when some leaf of \<open>other\<close> exceeds the corresponding leaf of
  \<open>self\<close>, identity leaves included; where \<open>other\<close> has a subtree and \<open>self\<close> a leaf, the
  missing leaves of \<open>self\<close> count as zero.
\<close>

datatype tree_clock = Leaf bool nat | Fork tree_clock tree_clock

fun hasId :: "tree_clock \<Rightarrow> bool" where
  "hasId (Leaf isId n) = isId"
| "hasId (Fork l r) = (hasId l \<or> hasId r)"

fun tc_ticks :: "tree_clock \<Rightarrow> nat" where
  "tc_ticks (Leaf isId n) = n"
| "tc_ticks (Fork l r) = (if hasId l then tc_ticks l else tc_ticks r)"

fun tc_getTicks :: "tree_clock \<Rightarrow> tree_clock \<Rightarrow> nat option" where
  "tc_getTicks (Leaf i n) (Leaf j m) = (if j then Some n else None)"
| "tc_getTicks (Fork l r) (Fork l' r') =
     (if hasId l' then tc_getTicks l l' else tc_getTicks r r')"
| "tc_getTicks (Leaf i n) (Fork l' r') = None"
| "tc_getTicks (Fork l r) (Leaf j m) = None"

fun tc_anyLt :: "tree_clock \<Rightarrow> tree_clock \<Rightarrow> bool" where
  "tc_anyLt (Leaf i n) (Leaf j m) = (n < m)"
| "tc_anyLt (Fork l r) (Fork l' r') = (tc_anyLt l l' \<or> tc_anyLt r r')"
| "tc_anyLt (Leaf i n) (Fork l' r') = (tc_anyLt (Leaf i 0) l' \<or> tc_anyLt (Leaf i 0) r')"
| "tc_anyLt (Fork l r) (Leaf j m) = False"

text \<open>
  A stand-in for the triple hash that tells any two triples apart, and the labels of the
  blank nodes: \<^verbatim>\<open>b\<close>, \<^verbatim>\<open>b1\<close>, \<^verbatim>\<open>b11\<close> and so on.
\<close>

definition term_key :: "rdf_term \<Rightarrow> string" where
  "term_key x = termType x @ '' '' @ term_value x"

definition thash :: "triple \<Rightarrow> string" where
  "thash t = ''thash:'' @ term_key (subject t) @ '' | '' @ term_key (predicate t) @ '' | ''
     @ term_key (object t)"

definition blank_label :: "nat \<Rightarrow> string" where
  "blank_label n = CHR ''b'' # replicate n (CHR ''1'')"

text \<open>
  A constraint in the manner of \<^verbatim>\<open>SingleValued\<close>, as its tests show it: a subject has one
  value of the property. An inserted value that meets another value already in the graph
  fails the check of a local write, and for a remote update the repair deletes it. The repair
  is passed as the patch it stands for, so \<^verbatim>\<open>write\<close> has nothing left to do.
\<close>

definition conflicting :: "Iri \<Rightarrow> triple list \<Rightarrow> triple list \<Rightarrow> triple list" where
  "conflicting property existing ins =
     filter (\<lambda>t. predicate t = NamedNode property
                \<and> list_ex (\<lambda>x. subject x = subject t \<and> predicate x = NamedNode property
                                \<and> object x \<noteq> object t) existing) ins"

definition singleValued_deps :: "Iri \<Rightarrow> (tree_clock, triple patch) deps" where
  "singleValued_deps property =
     \<lparr>ticks = tc_ticks, getTicks = tc_getTicks, anyLt = tc_anyLt, tripleId = thash,
      constraint_check = (\<lambda>update existing.
         if conflicting property existing (u_insert update) = [] then None
         else Some (Error ''Multiple values'')),
      constraint_apply = (\<lambda>update existing.
         if conflicting property existing (u_insert update) = [] then None
         else Some (PatchQuads (conflicting property existing (u_insert update)) [])),
      graph_write = (\<lambda>request existing. Inr request)\<rparr>"

text \<open>
  The data of the tests: Fred and his names. Clone A, the left identity of the clock, holds
  Fred's name from transaction \<^verbatim>\<open>t1\<close>; its journal has the entry of that transaction.
\<close>

definition name_iri :: Iri where
  "name_iri = ''http://test.m-ld.org/#name''"

definition fred_name :: "string \<Rightarrow> triple" where
  "fred_name v =
     \<lparr>subject = NamedNode ''http://test.m-ld.org/fred'', predicate = NamedNode name_iri,
      object = Literal v\<rparr>"

definition clock_A :: "nat \<Rightarrow> nat \<Rightarrow> tree_clock" where
  "clock_A mine theirs = Fork (Leaf True mine) (Leaf False theirs)"

definition clock_B :: "nat \<Rightarrow> nat \<Rightarrow> tree_clock" where
  "clock_B theirs mine = Fork (Leaf False theirs) (Leaf True mine)"

definition fred_delta :: meld_delta where
  "fred_delta = \<lparr>d_tid = ''t1'', d_insert = [fred_name ''Fred''], d_delete = []\<rparr>"

definition fred_state :: "tree_clock suset" where
  "fred_state =
     \<lparr>graph = [fred_name ''Fred''],
      tidsGraph = [(qs_all, ''t1''), (thash (fred_name ''Fred''), ''t1'')],
      journal_entries = [\<lparr>e_time = clock_A 1 0, e_remote = None, e_delta = fred_delta\<rparr>],
      journal_time = clock_A 1 0,
      updateSource = [],
      closed = False\<rparr>"

text \<open>
  Further states of clone A. In \<open>journal_state\<close> it has made a second write and applied a
  delta of clone B. In \<open>snapshot_state\<close> it has started over from a snapshot: the journal was
  reset to a single entry at its eleventh tick. In \<open>two_tids_state\<close> two transactions have
  asserted Fred's name. \<open>flintstone_delta\<close> is clone B's write of another name for Fred, and
  \<open>split_delta\<close> a delta that retracts Fred's name in two reifications, one for each TID.
\<close>

definition flintstone_delta :: meld_delta where
  "flintstone_delta = \<lparr>d_tid = ''t2'', d_insert = [fred_name ''Flintstone''], d_delete = []\<rparr>"

definition journal_state :: "tree_clock suset" where
  "journal_state =
     fred_state\<lparr>journal_entries :=
        [\<lparr>e_time = clock_A 1 0, e_remote = None, e_delta = fred_delta\<rparr>,
         \<lparr>e_time = clock_A 2 0, e_remote = None,
          e_delta = \<lparr>d_tid = ''t4'', d_insert = [fred_name ''Fred''], d_delete = []\<rparr>\<rparr>,
         \<lparr>e_time = clock_A 3 1, e_remote = Some (clock_B 2 1), e_delta = flintstone_delta\<rparr>],
        journal_time := clock_A 3 1\<rparr>"

definition snapshot_state :: "tree_clock suset" where
  "snapshot_state =
     fred_state\<lparr>journal_entries :=
        [\<lparr>e_time = clock_A 11 4, e_remote = None,
          e_delta = \<lparr>d_tid = ''t0'', d_insert = [], d_delete = []\<rparr>\<rparr>],
        journal_time := clock_A 11 4\<rparr>"

definition two_tids_state :: "tree_clock suset" where
  "two_tids_state =
     fred_state\<lparr>tidsGraph :=
        [(qs_all, ''t1''), (qs_all, ''t2''),
         (thash (fred_name ''Fred''), ''t1''), (thash (fred_name ''Fred''), ''t2'')]\<rparr>"

definition split_delta :: meld_delta where
  "split_delta =
     \<lparr>d_tid = ''t3'', d_insert = [],
      d_delete = reifyTriplesTids blank_label 0
        [(fred_name ''Fred'', [''t1'']), (fred_name ''Fred'', [''t2''])]\<rparr>"




text \<open>
  The remotes of clone A as constructed, and after a request to its peer \<^verbatim>\<open>B\<close>.
\<close>

definition remotes_A :: remotes where
  "remotes_A = \<lparr>remotes_id = ''A'', isGenesis = None, recentlySentTo = {}, published = []\<rparr>"

definition remotes_A_sent :: remotes where
  "remotes_A_sent = remotes_A\<lparr>recentlySentTo := {''A'', ''B''}\<rparr>"

section \<open>Facts about reification\<close>

lemma vocabulary_distinct:
  "RDF_type \<noteq> RDF_subject" "RDF_type \<noteq> RDF_predicate" "RDF_type \<noteq> RDF_object"
  "RDF_type \<noteq> M_LD_tid" "RDF_subject \<noteq> RDF_predicate" "RDF_subject \<noteq> RDF_object"
  "RDF_subject \<noteq> M_LD_tid" "RDF_predicate \<noteq> RDF_object" "RDF_predicate \<noteq> M_LD_tid"
  "RDF_object \<noteq> M_LD_tid"
  by (simp_all add: RDF_type_def RDF_subject_def RDF_predicate_def RDF_object_def
      M_LD_tid_def RDF_base_def)

lemma update_fresh: "k \<notin> fst ` set al \<Longrightarrow> AList.update k v al = al @ [(k, v)]"
  by (induct al) auto

lemma map_of_fresh: "k \<notin> fst ` set al \<Longrightarrow> map_of al k = None"
  by (simp add: map_of_eq_None_iff)

lemma unreify_tids:
  "map_of acc rid = Some (tr, ts) \<Longrightarrow>
   foldl unreify_step acc
     (map (\<lambda>tid. rdf_quad (BlankNode rid) (NamedNode M_LD_tid) (Literal tid)) tids)
     = AList.update rid (tr, ts @ tids) acc"
proof (induction tids arbitrary: acc ts)
  case Nil
  then show ?case by (simp add: AList.update_triv)
next
  case (Cons tid tids)
  have step: "unreify_step acc (rdf_quad (BlankNode rid) (NamedNode M_LD_tid) (Literal tid))
      = AList.update rid (tr, ts @ [tid]) acc"
    using Cons.prems vocabulary_distinct by (simp add: unreify_step_def rdf_quad_def)
  have look: "map_of (AList.update rid (tr, ts @ [tid]) acc) rid = Some (tr, ts @ [tid])"
    by (simp add: AList.update_conv')
  show ?case
    using Cons.IH [OF look] by (simp add: step)
qed

lemma unreify_block:
  assumes fresh: "rid \<notin> fst ` set acc"
    and iri: "isIri (subject t)" "isIri (predicate t)"
  shows "foldl unreify_step acc (reifyTripleTids (BlankNode rid) t tids)
     = acc @ [(rid, as_ptriple t, tids)]"
proof -
  let ?a1 = "acc @ [(rid, empty_ptriple, [])]"
  let ?a2 = "acc @ [(rid, empty_ptriple\<lparr>subject_opt := Some (subject t)\<rparr>, [])]"
  let ?a3 = "acc @ [(rid, empty_ptriple\<lparr>subject_opt := Some (subject t),
                 predicate_opt := Some (predicate t)\<rparr>, [])]"
  let ?a4 = "acc @ [(rid, as_ptriple t, [])]"
  have none: "map_of acc rid = None" using fresh by (rule map_of_fresh)
  have s1: "unreify_step acc (rdf_quad (BlankNode rid) (NamedNode RDF_type) (NamedNode RDF_Statement))
      = ?a1"
    using none fresh vocabulary_distinct
    by (simp add: unreify_step_def rdf_quad_def update_fresh)
  have upd: "\<And>v w. AList.update rid v (acc @ [(rid, w)]) = acc @ [(rid, v)]"
    using fresh by (induct acc) auto
  have look: "\<And>w. map_of (acc @ [(rid, w)]) rid = Some w"
    using none by (simp add: map_add_def)
  have s2: "unreify_step ?a1 (rdf_quad (BlankNode rid) (NamedNode RDF_subject) (subject t)) = ?a2"
    using iri(1) vocabulary_distinct
    by (simp add: unreify_step_def rdf_quad_def look upd isIri_def del: map_of_append)
  have s3: "unreify_step ?a2 (rdf_quad (BlankNode rid) (NamedNode RDF_predicate) (predicate t)) = ?a3"
    using iri(2) vocabulary_distinct
    by (simp add: unreify_step_def rdf_quad_def look upd isIri_def del: map_of_append)
  have s4: "unreify_step ?a3 (rdf_quad (BlankNode rid) (NamedNode RDF_object) (object t)) = ?a4"
    using vocabulary_distinct
    by (simp add: unreify_step_def rdf_quad_def look upd as_ptriple_def empty_ptriple_def
        del: map_of_append)
  have s5: "foldl unreify_step ?a4
        (map (\<lambda>tid. rdf_quad (BlankNode rid) (NamedNode M_LD_tid) (Literal tid)) tids)
      = acc @ [(rid, as_ptriple t, tids)]"
    using unreify_tids [of ?a4 rid "as_ptriple t" "[]" tids]
    by (simp add: look upd del: map_of_append)
  show ?thesis
    by (simp add: reifyTripleTids_def s1 s2 s3 s4 s5)
qed

lemma unreify_blocks:
  assumes "inj blank"
  shows "fst ` set acc \<subseteq> blank ` {..<n} \<Longrightarrow> list_all iriTriple m \<Longrightarrow>
    foldl unreify_step acc (reifyTriplesTids blank n m)
      = acc @ map (\<lambda>i. (blank (n + i), as_ptriple (fst (m ! i)), snd (m ! i))) [0..<length m]"
proof (induction m arbitrary: acc n)
  case Nil
  then show ?case by simp
next
  case (Cons e m)
  obtain t tids where e: "e = (t, tids)" by (cases e)
  have fresh: "blank n \<notin> fst ` set acc"
    using Cons.prems(1) assms by (auto dest: injD)
  have iri: "isIri (subject t)" "isIri (predicate t)"
    using Cons.prems(2) by (simp_all add: e iriTriple_def)
  let ?acc = "acc @ [(blank n, as_ptriple t, tids)]"
  have sub: "fst ` set ?acc \<subseteq> blank ` {..<Suc n}"
    using Cons.prems(1) by (auto simp: lessThan_Suc)
  have rest: "list_all iriTriple m" using Cons.prems(2) by simp
  have "foldl unreify_step acc (reifyTriplesTids blank n (e # m))
      = foldl unreify_step ?acc (reifyTriplesTids blank (Suc n) m)"
    by (simp add: e unreify_block [OF fresh iri])
  also have "\<dots> = ?acc @ map (\<lambda>i. (blank (Suc n + i), as_ptriple (fst (m ! i)), snd (m ! i)))
        [0..<length m]"
    by (rule Cons.IH [OF sub rest])
  also have "\<dots> = acc @ map (\<lambda>i. (blank (n + i), as_ptriple (fst ((e # m) ! i)),
        snd ((e # m) ! i))) [0..<length (e # m)]"
    by (simp add: e map_upt_Suc del: upt_Suc)
  finally show ?case .
qed

lemma unreify_reify_list:
  assumes "inj blank" "list_all iriTriple m"
  shows "unreify (reifyTriplesTids blank n m) = map (\<lambda>e. (as_ptriple (fst e), snd e)) m"
proof -
  have "foldl unreify_step [] (reifyTriplesTids blank n m)
      = [] @ map (\<lambda>i. (blank (n + i), as_ptriple (fst (m ! i)), snd (m ! i))) [0..<length m]"
    by (rule unreify_blocks [OF assms(1) _ assms(2)]) simp
  then have "unreify (reifyTriplesTids blank n m)
      = map (\<lambda>i. (as_ptriple (fst (m ! i)), snd (m ! i))) [0..<length m]"
    by (simp add: unreify_def comp_def)
  also have "\<dots> = map (\<lambda>e. (as_ptriple (fst e), snd e)) (map ((!) m) [0..<length m])"
    by (simp add: comp_def)
  also have "\<dots> = map (\<lambda>e. (as_ptriple (fst e), snd e)) m"
    by (simp only: map_nth)
  finally show ?thesis .
qed

lemma inj_blank_label: "inj blank_label"
proof (rule injI)
  fix a b assume "blank_label a = blank_label b"
  then have "length (blank_label a) = length (blank_label b)" by simp
  then show "a = b" by (simp add: blank_label_def)
qed

text \<open>
  C10. For every map from triples whose subject and predicate are IRIs to lists of TIDs,
  \<^verbatim>\<open>unreify\<close> of the statements that \<^verbatim>\<open>reifyTriplesTids\<close> produces gives back the same
  associations of a triple with its TIDs, whatever distinct labels the blank nodes get and up
  to the order of the entries.
\<close>

theorem unreify_reifyTriplesTids:
  assumes "inj blank" and "list_all iriTriple m"
  shows "mset (unreify (reifyTriplesTids blank n m))
       = mset (map (\<lambda>e. (as_ptriple (fst e), snd e)) m)"
  using unreify_reify_list [OF assms] by simp

theorem unreify_reifyTriplesTids_witness:
  "inj blank_label
   \<and> list_all iriTriple [(fred_name ''Fred'', [''t1'', ''t2'']), (fred_name ''Flintstone'', [''t3''])]
   \<and> mset (unreify (reifyTriplesTids blank_label 0
        [(fred_name ''Fred'', [''t1'', ''t2'']), (fred_name ''Flintstone'', [''t3''])]))
     = mset [(as_ptriple (fred_name ''Fred''), [''t1'', ''t2'']),
             (as_ptriple (fred_name ''Flintstone''), [''t3''])]"
proof -
  have iris: "list_all iriTriple
      [(fred_name ''Fred'', [''t1'', ''t2'']), (fred_name ''Flintstone'', [''t3''])]"
    by (simp add: iriTriple_def isIri_def fred_name_def)
  from unreify_reifyTriplesTids [OF inj_blank_label iris, of 0] inj_blank_label iris
  show ?thesis by simp
qed

section \<open>Facts about SuSetDataset\<close>

lemma patch_fields [simp]:
  "oldQuads (PatchQuads old new) = old"
  "newQuads (PatchQuads old new) = new"
  "oldQuads (patch_concat p q) = oldQuads p @ oldQuads q"
  "newQuads (patch_concat p q) = newQuads p @ newQuads q"
  "oldQuads (patch_map f p) = map f (oldQuads p)"
  "newQuads (patch_map f p) = map f (newQuads p)"
  by (simp_all add: PatchQuads_def patch_concat_def patch_map_def)

lemma entries_of_data [simp]:
  "concat (map entryOf (map DataQuad ts)) = []"
  "concat (map timeOf (map DataQuad ts)) = []"
  by (induction ts) simp_all

lemma entries_of_tids [simp]:
  "concat (map entryOf (map (\<lambda>q. TidQuad (fst q) (snd q)) qs)) = []"
  "concat (map timeOf (map (\<lambda>q. TidQuad (fst q) (snd q)) qs)) = []"
  by (induction qs) simp_all


lemma deps_fields [simp]:
  "ticks (singleValued_deps p) = tc_ticks"
  "getTicks (singleValued_deps p) = tc_getTicks"
  "anyLt (singleValued_deps p) = tc_anyLt"
  "tripleId (singleValued_deps p) = thash"
  by (simp_all add: singleValued_deps_def)

lemma conflicting_Flintstone:
  "conflicting name_iri [fred_name ''Fred''] [fred_name ''Flintstone'']
     = [fred_name ''Flintstone'']"
  by (simp add: conflicting_def fred_name_def)

text \<open>
  C1. When the TID of a remote delta is already in the set of all TIDs, \<^verbatim>\<open>apply\<close> changes
  nothing: the quads, the TID graph, the journal and the pushed updates stay as they were, and
  the result is \<^verbatim>\<open>null\<close> (on a dataset that has been closed, the call is refused like every
  other call, also without any change).
\<close>

theorem apply_known_tid_noop:
  assumes "knowsTid s (d_tid msgData)"
  shows "SuSetDataset_apply D cxTid blank msgData msgTime arrivalTime localTime s =
    (s, if closed s then Inl (MeldError ''Clone has closed'') else Inr None)"
  using assms
  by (simp add: SuSetDataset_apply_def checkNotClosed_def QuadStoreDataset_transact_def
      apply_prepare_def)

theorem apply_known_tid_noop_witness:
  "knowsTid fred_state (d_tid fred_delta)
   \<and> SuSetDataset_apply (singleValued_deps name_iri) ''t9'' blank_label fred_delta
        (clock_B 0 1) (clock_A 2 1) (clock_A 3 1) fred_state = (fred_state, Inr None)"
proof -
  have known: "knowsTid fred_state (d_tid fred_delta)"
    by (simp add: knowsTid_def fred_state_def fred_delta_def)
  have "closed fred_state = False" by (simp add: fred_state_def)
  with apply_known_tid_noop [OF known] known show ?thesis by simp
qed

text \<open>
  C3. When the constraint check rejects a local write, \<^verbatim>\<open>transact\<close> fails with the
  constraint's error and the dataset is as before: no quad of the data graph, of the TID
  graph or of the journal is written, and no update is pushed.
\<close>

theorem transact_constraint_failure:
  assumes "prepare (graph s) = Inr (time, patch)"
    and "constraint_check D (asUpdate D time patch) (graph s) = Some err"
  shows "SuSetDataset_transact D tid blank prepare s =
    (s, Inl (if closed s then MeldError ''Clone has closed'' else err))"
  using assms
  by (simp add: SuSetDataset_transact_def checkNotClosed_def QuadStoreDataset_transact_def
      transact_prepare_def)

theorem transact_constraint_failure_witness:
  "constraint_check (singleValued_deps name_iri)
      (asUpdate (singleValued_deps name_iri) (clock_A 2 0)
         (PatchQuads [] [fred_name ''Flintstone'']))
      (graph fred_state) = Some (Error ''Multiple values'')
   \<and> SuSetDataset_transact (singleValued_deps name_iri) ''t2'' blank_label
        (\<lambda>g. Inr (clock_A 2 0, PatchQuads [] [fred_name ''Flintstone''])) fred_state
      = (fred_state, Inl (Error ''Multiple values''))"
proof -
  have rejected: "constraint_check (singleValued_deps name_iri)
      (asUpdate (singleValued_deps name_iri) (clock_A 2 0)
         (PatchQuads [] [fred_name ''Flintstone'']))
      (graph fred_state) = Some (Error ''Multiple values'')"
    by (simp add: singleValued_deps_def asUpdate_def PatchQuads_def fred_state_def
        conflicting_Flintstone)
  have "closed fred_state = False" by (simp add: fred_state_def)
  with transact_constraint_failure [OF refl rejected, of "''t2''" blank_label] rejected
  show ?thesis by simp
qed





lemma emit_open:
  "emitJournalFrom False flt es
     = map (\<lambda>e. Next \<lparr>m_time = e_time e, m_data = e_delta e\<rparr>) (filter flt es) @ [Complete]"
  by (induction es) simp_all

lemma findEntry_empty:
  "(findEntry D s n = []) = (\<not> list_ex (\<lambda>e. ticks D (e_time e) = n) (journal_entries s))"
  by (auto simp: findEntry_def list_ex_iff)

text \<open>
  C5, as the code has it. On an open dataset \<^verbatim>\<open>operationsSince(time)\<close> changes nothing and
  returns \<^verbatim>\<open>undefined\<close> exactly when \<^verbatim>\<open>time.getTicks(journal.time)\<close> is nil or the journal
  has no entry with that many ticks. Otherwise it returns the observable of the found entry:
  subscribed to, it walks the journal from the first entry with that many ticks to the tail,
  sends those entries \<open>e\<close> with \<^verbatim>\<open>time.anyLt(e.time, 'includeIds')\<close>, in the journal's order
  and no others, and completes.
\<close>

theorem operationsSince_from_found_entry:
  assumes "\<not> closed s"
  shows "SuSetDataset_operationsSince D time s
           = (s, Inr (case getTicks D time (journal_time s) of
                        None \<Rightarrow> None
                      | Some k \<Rightarrow>
                          if list_ex (\<lambda>e. ticks D (e_time e) = k) (journal_entries s)
                          then Some \<lparr>found_ticks = k, since = time\<rparr> else None))
       \<and> subscribe D \<lparr>found_ticks = n, since = time\<rparr> s
           = map (\<lambda>e. Next \<lparr>m_time = e_time e, m_data = e_delta e\<rparr>)
               (filter (\<lambda>e. anyLt D time (e_time e))
                  (dropWhile (\<lambda>e. ticks D (e_time e) \<noteq> n) (journal_entries s)))
             @ [Complete]"
proof -
  have a: "SuSetDataset_operationsSince D time s
           = (s, Inr (case getTicks D time (journal_time s) of
                        None \<Rightarrow> None
                      | Some k \<Rightarrow>
                          if list_ex (\<lambda>e. ticks D (e_time e) = k) (journal_entries s)
                          then Some \<lparr>found_ticks = k, since = time\<rparr> else None))"
    using assms
    by (cases "getTicks D time (journal_time s)")
      (simp_all add: SuSetDataset_operationsSince_def checkNotClosed_def
        QuadStoreDataset_transact_def operationsSince_prepare_def findEntry_empty)
  have b: "subscribe D \<lparr>found_ticks = n, since = time\<rparr> s
           = map (\<lambda>e. Next \<lparr>m_time = e_time e, m_data = e_delta e\<rparr>)
               (filter (\<lambda>e. anyLt D time (e_time e))
                  (dropWhile (\<lambda>e. ticks D (e_time e) \<noteq> n) (journal_entries s)))
             @ [Complete]"
    using assms by (simp add: subscribe_def emit_open findEntry_def)
  from a b show ?thesis by simp
qed

theorem operationsSince_from_found_entry_witness:
  "\<not> closed journal_state
   \<and> snd (SuSetDataset_operationsSince (singleValued_deps name_iri) (clock_B 1 0) journal_state)
       = Inr (Some \<lparr>found_ticks = 1, since = clock_B 1 0\<rparr>)
   \<and> subscribe (singleValued_deps name_iri) \<lparr>found_ticks = 1, since = clock_B 1 0\<rparr>
        journal_state
       = [Next \<lparr>m_time = clock_A 2 0,
                m_data = \<lparr>d_tid = ''t4'', d_insert = [fred_name ''Fred''], d_delete = []\<rparr>\<rparr>,
          Next \<lparr>m_time = clock_A 3 1, m_data = flintstone_delta\<rparr>,
          Complete]"
proof -
  have op: "\<not> closed journal_state"
    by (simp add: journal_state_def fred_state_def)
  from operationsSince_from_found_entry [OF op, of "singleValued_deps name_iri" "clock_B 1 0" 1]
  show ?thesis
    by (simp add: op journal_state_def fred_state_def clock_A_def clock_B_def)
qed

text \<open>
  The claim C5 as it was stated fails in two places. A clone that started over from a
  snapshot at its eleventh tick is asked by a peer that has seen seven of its ticks: the
  ticks are not nil, yet no entry is found and the result is \<^verbatim>\<open>undefined\<close>. And the walk
  starts at the entry with the requested ticks, not at the one after it: a peer that has seen
  three ticks of the clone but reports fewer ticks of its own than the third entry records is
  sent that third entry.
\<close>

theorem operationsSince_counterexample:
  "getTicks (singleValued_deps name_iri) (clock_B 7 4) (journal_time snapshot_state) = Some 7
   \<and> snd (SuSetDataset_operationsSince (singleValued_deps name_iri) (clock_B 7 4) snapshot_state)
       = Inr None
   \<and> getTicks (singleValued_deps name_iri) (clock_B 3 0) (journal_time journal_state) = Some 3
   \<and> snd (SuSetDataset_operationsSince (singleValued_deps name_iri) (clock_B 3 0) journal_state)
       = Inr (Some \<lparr>found_ticks = 3, since = clock_B 3 0\<rparr>)
   \<and> subscribe (singleValued_deps name_iri) \<lparr>found_ticks = 3, since = clock_B 3 0\<rparr>
        journal_state
       = [Next \<lparr>m_time = clock_A 3 1, m_data = flintstone_delta\<rparr>, Complete]"
  by (simp add: SuSetDataset_operationsSince_def checkNotClosed_def
        QuadStoreDataset_transact_def operationsSince_prepare_def findEntry_def subscribe_def
        snapshot_state_def journal_state_def fred_state_def clock_A_def clock_B_def)

lemma length_filter_all: "(length (filter P xs) = length xs) = (\<forall>x\<in>set xs. P x)"
proof (induction xs)
  case Nil
  then show ?case by simp
next
  case (Cons x xs)
  show ?case
  proof (cases "P x")
    case True
    with Cons show ?thesis by simp
  next
    case False
    have "length (filter P xs) \<le> length xs" by (rule length_filter_le)
    then have "length (filter P xs) \<noteq> Suc (length xs)" by arith
    with False show ?thesis by simp
  qed
qed

text \<open>
  One reified deletion, as the reducer of \<^verbatim>\<open>apply\<close> treats it: the TID quads of the triple
  whose TID is among theirs go to the old quads of the TID patch, and the triple goes to the
  old quads of the data patch exactly when every TID of the triple is among theirs.
\<close>

lemma applyDeletion_intersection:
  assumes "asTriple (fst del) = Some t"
  shows "applyDeletion D s (Inr (p, tp)) del
     = Inr (if snd ` set (findTripleTids s (tripleId D t)) \<subseteq> set (snd del)
            then p\<lparr>oldQuads := oldQuads p @ [t]\<rparr> else p,
            patch_concat tp
              (PatchQuads (filter (\<lambda>q. snd q \<in> set (snd del))
                 (findTripleTids s (tripleId D t))) []))"
  using assms
  by (auto simp: applyDeletion_def Let_def length_filter_all)

lemma apply_without_repair:
  assumes "\<not> closed s" and "\<not> knowsTid s (d_tid msgData)"
    and dels: "foldl (applyDeletion D s)
            (Inr (PatchQuads [] (d_insert msgData), PatchQuads [] []))
            (unreify (d_delete msgData)) = Inr (patch, tidPatch)"
    and cx: "constraint_apply D (asUpdate D arrivalTime patch) (graph s) = None"
  shows "SuSetDataset_apply D cxTid blank msgData msgTime arrivalTime localTime s
     = (store_patch
          (transactionPatch patch (newTid (d_tid msgData))
             (patch_concat tidPatch (newTriplesTid D (newQuads patch) (d_tid msgData)))
             (patch_concat (fst (createNext msgData arrivalTime (Some msgTime)))
                (setNext s (snd (createNext msgData arrivalTime (Some msgTime))) localTime)))
          (s\<lparr>updateSource := updateSource s @ [asUpdate D arrivalTime patch]\<rparr>),
        Inr None)"
proof -
  have ac: "applyConstraint D cxTid blank s patch (asUpdate D arrivalTime patch) (d_tid msgData)
        localTime = Inr (patch, None)"
    by (simp add: applyConstraint_def cx)
  show ?thesis
    using assms(1,2)
    by (simp add: SuSetDataset_apply_def checkNotClosed_def QuadStoreDataset_transact_def
        apply_prepare_def dels ac Let_def)
qed

lemma asTriple_as_ptriple [simp]: "asTriple (as_ptriple t) = Some t"
  by (simp add: asTriple_def as_ptriple_def)

lemma deletions_result:
  "foldl (applyDeletion D s) (Inr (p, tp)) (map (\<lambda>e. (as_ptriple (fst e), snd e)) tts)
     = Inr (PatchQuads (oldQuads p @ map fst (filter (covered D s) tts)) (newQuads p),
            PatchQuads (oldQuads tp @ concat (map (removed D s) tts)) (newQuads tp))"
proof (induction tts arbitrary: p tp)
  case Nil
  then show ?case by (simp add: PatchQuads_def)
next
  case (Cons e tts)
  have step: "applyDeletion D s (Inr (p, tp)) (as_ptriple (fst e), snd e)
      = Inr (if covered D s e then p\<lparr>oldQuads := oldQuads p @ [fst e]\<rparr> else p,
             patch_concat tp (PatchQuads (removed D s e) []))"
    using applyDeletion_intersection [of "(as_ptriple (fst e), snd e)" "fst e" D s p tp]
    by (simp add: covered_def removed_def)
  show ?case
    by (simp add: step Cons.IH)
qed

lemma set_quads_patch: "set (quads_patch old new xs) = (set xs - set old) \<union> set new"
  by (auto simp: quads_patch_def Let_def)

lemma removed_subject: "q \<in> set (removed D s e) \<Longrightarrow> fst q = tripleId D (fst e)"
  by (simp add: removed_def findTripleTids_def)

text \<open>
  What \<^verbatim>\<open>apply\<close> does keep. When the deletions of a remote delta name every triple once, the
  hash tells triples apart and the constraint asks for no repair, the triples of the data
  graph still have a TID each after \<^verbatim>\<open>apply\<close>.
\<close>

lemma apply_keeps_tids:
  assumes op: "\<not> closed s" and new: "\<not> knowsTid s (d_tid msgData)"
    and inj: "inj (tripleId D)"
    and dels: "unreify (d_delete msgData) = map (\<lambda>e. (as_ptriple (fst e), snd e)) tts"
    and once: "distinct (map fst tts)"
    and cx: "constraint_apply D
        (asUpdate D arrivalTime
           (PatchQuads (map fst (filter (covered D s) tts)) (d_insert msgData))) (graph s) = None"
    and inv: "tids_cover_graph D s"
  shows "tids_cover_graph D
     (fst (SuSetDataset_apply D cxTid blank msgData msgTime arrivalTime localTime s))"
proof -
  let ?patch = "PatchQuads (map fst (filter (covered D s) tts)) (d_insert msgData)"
  let ?tidPatch = "PatchQuads (concat (map (removed D s) tts)) []"
  let ?s' = "fst (SuSetDataset_apply D cxTid blank msgData msgTime arrivalTime localTime s)"
  have folded: "foldl (applyDeletion D s)
      (Inr (PatchQuads [] (d_insert msgData), PatchQuads [] []))
      (unreify (d_delete msgData)) = Inr (?patch, ?tidPatch)"
    by (simp add: dels deletions_result)
  note r = apply_without_repair [OF op new folded cx, of cxTid blank msgTime localTime]
  have g: "set (graph ?s') = (set (graph s) - fst ` set (filter (covered D s) tts))
      \<union> set (d_insert msgData)"
    by (auto simp: r store_patch_def transactionPatch_def createNext_def setNext_def Let_def
        set_quads_patch)
  have t: "set (tidsGraph ?s')
      = (set (tidsGraph s) - (\<Union>e\<in>set tts. set (removed D s e)))
        \<union> insert (qs_all, d_tid msgData)
            ((\<lambda>t. (tripleId D t, d_tid msgData)) ` set (d_insert msgData))"
    by (auto simp: r store_patch_def transactionPatch_def createNext_def setNext_def Let_def
        set_quads_patch newTid_def newTriplesTid_def)
  have "findTripleTids ?s' (tripleId D x) \<noteq> []" if x: "x \<in> set (graph ?s')" for x
  proof -
    have goal: "\<exists>q \<in> set (tidsGraph ?s'). fst q = tripleId D x"
    proof (cases "x \<in> set (d_insert msgData)")
      case True
      then have "(tripleId D x, d_tid msgData) \<in> set (tidsGraph ?s')" by (simp add: t)
      then show ?thesis by force
    next
      case False
      with x g have old: "x \<in> set (graph s)"
        and kept: "x \<notin> fst ` set (filter (covered D s) tts)" by auto
      from inv old have ours: "findTripleTids s (tripleId D x) \<noteq> []"
        by (simp add: tids_cover_graph_def list_all_iff)
      show ?thesis
      proof (cases "x \<in> fst ` set tts")
        case False
        from ours obtain q where q: "q \<in> set (findTripleTids s (tripleId D x))"
          by (cases "findTripleTids s (tripleId D x)") auto
        then have qs: "q \<in> set (tidsGraph s)" and qx: "fst q = tripleId D x"
          by (simp_all add: findTripleTids_def)
        have "q \<notin> set (removed D s e)" if "e \<in> set tts" for e
        proof
          assume "q \<in> set (removed D s e)"
          then have "tripleId D (fst e) = tripleId D x" using qx removed_subject by metis
          then have "fst e = x" using inj by (simp add: inj_eq)
          with that False show False by force
        qed
        with qs qx show ?thesis by (auto simp: t)
      next
        case True
        then obtain e where e: "e \<in> set tts" and ex: "fst e = x" by auto
        with kept have "\<not> covered D s e" by force
        then obtain q where q: "q \<in> set (findTripleTids s (tripleId D x))"
          and qn: "snd q \<notin> set (snd e)"
          by (auto simp: covered_def ex)
        then have qs: "q \<in> set (tidsGraph s)" and qx: "fst q = tripleId D x"
          by (simp_all add: findTripleTids_def)
        have "q \<notin> set (removed D s e')" if e': "e' \<in> set tts" for e'
        proof
          assume in': "q \<in> set (removed D s e')"
          then have "tripleId D (fst e') = tripleId D x" using qx removed_subject by metis
          then have "fst e' = fst e" using inj ex by (simp add: inj_eq)
          with once e e' have "e' = e" by (metis distinct_map inj_onD)
          with in' qn show False by (simp add: removed_def)
        qed
        with qs qx show ?thesis by (auto simp: t)
      qed
    qed
    then show ?thesis
      by (auto simp: findTripleTids_def filter_empty_conv)
  qed
  then show ?thesis
    by (simp add: tids_cover_graph_def list_all_iff)
qed

lemma split_unreified:
  "unreify (d_delete split_delta)
     = [(as_ptriple (fred_name ''Fred''), [''t1'']), (as_ptriple (fred_name ''Fred''), [''t2''])]"
proof -
  have "list_all iriTriple [(fred_name ''Fred'', [''t1'']), (fred_name ''Fred'', [''t2''])]"
    by (simp add: iriTriple_def isIri_def fred_name_def)
  from unreify_reify_list [OF inj_blank_label this, of 0]
  show ?thesis by (simp add: split_delta_def)
qed

lemma thash_not_all: "thash t \<noteq> qs_all"
  by (simp add: thash_def qs_all_def)

lemma split_fields: "d_insert split_delta = []" "d_tid split_delta = ''t3''"
  by (simp_all add: split_delta_def)

lemma split_deletions:
  "foldl (applyDeletion (singleValued_deps name_iri) two_tids_state)
      (Inr (PatchQuads [] (d_insert split_delta), PatchQuads [] []))
      (unreify (d_delete split_delta))
   = Inr (PatchQuads [] [],
          PatchQuads [(thash (fred_name ''Fred''), ''t1''), (thash (fred_name ''Fred''), ''t2'')]
            [])"
  using thash_not_all [of "fred_name ''Fred''"]
  by (simp add: split_unreified applyDeletion_def findTripleTids_def two_tids_state_def
      fred_state_def Let_def split_fields PatchQuads_def patch_concat_def)

lemma apply_split_delta:
  "SuSetDataset_apply (singleValued_deps name_iri) ''t9'' blank_label split_delta
          (clock_B 1 1) (clock_A 2 1) (clock_A 3 1) two_tids_state
     = (\<lparr>graph = [fred_name ''Fred''],
         tidsGraph = [(qs_all, ''t1''), (qs_all, ''t2''), (qs_all, ''t3'')],
         journal_entries =
           [\<lparr>e_time = clock_A 1 0, e_remote = None, e_delta = fred_delta\<rparr>,
            \<lparr>e_time = clock_A 2 1, e_remote = Some (clock_B 1 1), e_delta = split_delta\<rparr>],
         journal_time = clock_A 3 1,
         updateSource = [\<lparr>u_ticks = 2, u_delete = [], u_insert = []\<rparr>],
         closed = False\<rparr>, Inr None)"
proof -
  have k: "\<not> knowsTid two_tids_state (d_tid split_delta)"
    by (simp add: knowsTid_def two_tids_state_def fred_state_def split_delta_def qs_all_def)
  have c: "\<not> closed two_tids_state" by (simp add: two_tids_state_def fred_state_def)
  have cx: "constraint_apply (singleValued_deps name_iri)
       (asUpdate (singleValued_deps name_iri) (clock_A 2 1) (PatchQuads [] []))
       (graph two_tids_state) = None"
    by (simp add: singleValued_deps_def asUpdate_def conflicting_def)
  note r = apply_without_repair [OF c k split_deletions cx, of "''t9''" blank_label
      "clock_B 1 1" "clock_A 3 1"]
  have q: "quads_patch
      [(thash (fred_name ''Fred''), ''t1''), (thash (fred_name ''Fred''), ''t2'')]
      [(qs_all, ''t3'')]
      [(qs_all, ''t1''), (qs_all, ''t2''),
       (thash (fred_name ''Fred''), ''t1''), (thash (fred_name ''Fred''), ''t2'')]
      = [(qs_all, ''t1''), (qs_all, ''t2''), (qs_all, ''t3'')]"
    using thash_not_all [of "fred_name ''Fred''"]
    by (simp add: quads_patch_def qs_all_def)
  have g: "\<And>xs::triple list. quads_patch [] [] xs = xs"
    by (simp add: quads_patch_def)
  show ?thesis
    unfolding r
    by (simp add: asUpdate_def clock_A_def split_fields transactionPatch_def newTid_def
        newTriplesTid_def store_patch_def q g two_tids_state_def fred_state_def createNext_def
        setNext_def Let_def)
qed

text \<open>
  C2, where the code parts from the claim. Clone A holds Fred's name under the TIDs \<^verbatim>\<open>t1\<close>
  and \<^verbatim>\<open>t2\<close>. A remote delta retracts the triple in two reifications, one naming \<^verbatim>\<open>t1\<close> and
  one naming \<^verbatim>\<open>t2\<close>. Each reification is compared with all the TIDs of the triple, none
  covers them, and the triple is not put among the old quads; yet both TID quads are removed.
  After \<^verbatim>\<open>apply\<close> the triple is still in the data graph and has no TID.
\<close>

theorem apply_split_deletion_leaves_triple_without_tid:
  "graph (fst (SuSetDataset_apply (singleValued_deps name_iri) ''t9'' blank_label split_delta
          (clock_B 1 1) (clock_A 2 1) (clock_A 3 1) two_tids_state)) = [fred_name ''Fred'']
   \<and> findTripleTids
        (fst (SuSetDataset_apply (singleValued_deps name_iri) ''t9'' blank_label split_delta
          (clock_B 1 1) (clock_A 2 1) (clock_A 3 1) two_tids_state))
        (thash (fred_name ''Fred'')) = []
   \<and> findTripleTids two_tids_state (thash (fred_name ''Fred''))
       = [(thash (fred_name ''Fred''), ''t1''), (thash (fred_name ''Fred''), ''t2'')]"
  unfolding apply_split_delta fst_conv
  using thash_not_all [of "fred_name ''Fred''"]
  by (simp add: findTripleTids_def two_tids_state_def fred_state_def)

section \<open>Facts about update notifications\<close>

















section \<open>Facts about the transaction lock\<close>

text \<open>
  C7, where the code parts from the claim. Two calls of \<^verbatim>\<open>transact\<close> on one dataset: the
  second call is made while the first is still preparing. Each call acquires a lock of its
  own, so the second is let in at once, and its \<^verbatim>\<open>prepare\<close> sees the store without the patch
  of the first, which commits later. Under one lock for the dataset the second call would
  wait, and run after the first, it would see the first's patch.
\<close>

theorem transact_calls_overlap:
  "run_events transact_lock new_run [Call 1, Call 2, Commit 1, Commit 2]
     = Some (new_run\<lparr>committed := [1, 2], seen := [(1, []), (2, [])]\<rparr>)
   \<and> run_events per_dataset_lock new_run [Call 1, Call 2, Commit 1, Commit 2] = None
   \<and> run_events per_dataset_lock new_run [Call 1, Commit 1, Call 2, Commit 2]
     = Some (new_run\<lparr>committed := [1, 2], seen := [(1, []), (2, [1])]\<rparr>)"
  by (simp add: run_step_def acquire_def new_AsyncLock_def transact_lock_def
      per_dataset_lock_def new_run_def)

section \<open>Facts about MqttRemotes\<close>

lemma isGenesis_settled:
  "isGenesis r = Some b \<Longrightarrow> isGenesis (foldl onHello r hs) = Some b"
  by (induction hs arbitrary: r) (simp_all add: onHello_def Future_resolve_def)

lemma isGenesis_first_hello:
  assumes "isGenesis r = None"
  shows "isGenesis (foldl onHello r (h # hs)) = Some (h = remotes_id r)"
proof -
  have "isGenesis (onHello r h) = Some (h = remotes_id r)"
    using assms by (auto simp: onHello_def Future_resolve_def)
  then show ?thesis by (simp add: isGenesis_settled)
qed

lemma code_picks_eligible:
  assumes "sentTo_ok r"
  shows "filter (\<lambda>i. i \<notin> insert (remotes_id r)
            (if list_all (\<lambda>i. i \<in> recentlySentTo r) present then {} else recentlySentTo r))
            present
         = eligible_peers r present"
proof (cases "recentlySentTo r = {}")
  case True
  then show ?thesis
    by (simp add: eligible_peers_def recent_peers_def present_peers_def)
next
  case False
  with assms have me: "remotes_id r \<in> recentlySentTo r" by (simp add: sentTo_ok_def)
  have same: "list_all (\<lambda>i. i \<in> recentlySentTo r) present
      = (set (present_peers r present) \<subseteq> recentlySentTo r)"
    using me by (auto simp: list_all_iff present_peers_def)
  show ?thesis
  proof (cases "list_all (\<lambda>i. i \<in> recentlySentTo r) present")
    case True
    with same show ?thesis by (simp add: eligible_peers_def recent_peers_def present_peers_def)
  next
    case no: False
    have "filter (\<lambda>i. i \<notin> insert (remotes_id r) (recentlySentTo r)) present
        = filter (\<lambda>i. i \<notin> recentlySentTo r) (filter (\<lambda>i. i \<noteq> remotes_id r) present)"
      using me by (induction present) auto
    with no same show ?thesis by (simp add: eligible_peers_def recent_peers_def present_peers_def)
  qed
qed

lemma code_clears:
  assumes "sentTo_ok r"
  shows "(if list_all (\<lambda>i. i \<in> recentlySentTo r) present then {} else recentlySentTo r)
         = recent_peers r present"
proof (cases "recentlySentTo r = {}")
  case True
  then show ?thesis by (simp add: recent_peers_def)
next
  case False
  with assms have me: "remotes_id r \<in> recentlySentTo r" by (simp add: sentTo_ok_def)
  then have "list_all (\<lambda>i. i \<in> recentlySentTo r) present
      = (set (present_peers r present) \<subseteq> recentlySentTo r)"
    by (auto simp: list_all_iff present_peers_def)
  then show ?thesis by (simp add: recent_peers_def)
qed

lemma send_step:
  assumes "sentTo_ok r"
  shows "MqttRemotes_send r msgId present req =
     (case eligible_peers r present of
        [] \<Rightarrow> (r\<lparr>recentlySentTo := insert (remotes_id r) (recent_peers r present)\<rparr>,
               Inl (MeldError NONE_VISIBLE))
      | to # others \<Rightarrow>
          (r\<lparr>recentlySentTo := insert to (insert (remotes_id r) (recent_peers r present)),
             published := published r
               @ [(\<lparr>toId = to, fromId = remotes_id r, messageId = msgId\<rparr>, req)]\<rparr>,
           Inr msgId))"
proof -
  note pick = code_picks_eligible [OF assms, of present]
  note clr = code_clears [OF assms, of present]
  show ?thesis
  proof (cases "eligible_peers r present")
    case Nil
    with pick clr show ?thesis
      by (simp add: MqttRemotes_send_def nextSendAddress_def Let_def)
  next
    case (Cons to others)
    with pick clr show ?thesis
      by (simp add: MqttRemotes_send_def nextSendAddress_def Let_def)
  qed
qed

lemma send_keeps:
  "remotes_id (fst (MqttRemotes_send r msgId present req)) = remotes_id r"
  "sentTo_ok (fst (MqttRemotes_send r msgId present req))"
  "isGenesis (fst (MqttRemotes_send r msgId present req)) = isGenesis r"
  by (simp_all add: MqttRemotes_send_def nextSendAddress_def Let_def sentTo_ok_def
      split: list.splits)

lemma no_eligible_no_peers:
  "eligible_peers r present = [] \<Longrightarrow> present_peers r present = []"
  by (auto simp: eligible_peers_def recent_peers_def filter_empty_conv split: if_splits)

lemma sends_cycle:
  assumes "sentTo_ok r" and "distinct present" and "length ms \<le> m"
  shows "targets (sends r present ms)
      = targets r @ take (length ms)
          (eligible_peers r present @ concat (replicate m (present_peers r present)))"
  using assms
proof (induction ms arbitrary: r m)
  case Nil
  then show ?case by simp
next
  case (Cons x ms)
  let ?r' = "fst (MqttRemotes_send r (fst x) present (snd x))"
  let ?peers = "present_peers r present"
  have ok': "sentTo_ok ?r'" and id': "remotes_id ?r' = remotes_id r"
    by (simp_all add: send_keeps)
  have peers': "present_peers ?r' present = ?peers"
    by (simp add: present_peers_def id')
  have dp: "distinct ?peers" using Cons.prems(2) by (simp add: present_peers_def)
  obtain m' where m: "m = Suc m'" and m': "length ms \<le> m'"
    using Cons.prems(3) by (cases m) auto
  show ?case
  proof (cases "eligible_peers r present")
    case Nil
    then have none: "?peers = []" by (rule no_eligible_no_peers)
    have r': "targets ?r' = targets r"
      by (simp add: send_step [OF Cons.prems(1)] Nil targets_def)
    have el': "eligible_peers ?r' present = []"
      by (simp add: eligible_peers_def peers' none)
    show ?thesis
      using Cons.IH [OF ok' Cons.prems(2) m'] by (simp add: r' el' peers' none Nil)
  next
    case (Cons e es)
    have r': "targets ?r' = targets r @ [e]"
      by (simp add: send_step [OF Cons.prems(1)] Cons targets_def)
    have sent': "recentlySentTo ?r'
        = insert e (insert (remotes_id r) (recent_peers r present))"
      by (simp add: send_step [OF Cons.prems(1)] Cons)
    have el: "filter (\<lambda>i. i \<notin> recent_peers r present) ?peers = e # es"
      using Cons by (simp add: eligible_peers_def)
    have de: "distinct (e # es)" using dp el by (metis distinct_filter)
    have notme: "remotes_id r \<notin> set ?peers" by (simp add: present_peers_def)
    show ?thesis
    proof (cases es)
      case Nil
      have all: "set ?peers \<subseteq> recentlySentTo ?r'"
      proof
        fix i assume i: "i \<in> set ?peers"
        show "i \<in> recentlySentTo ?r'"
        proof (cases "i \<in> recent_peers r present")
          case True then show ?thesis by (simp add: sent')
        next
          case False
          with i have "i \<in> set (filter (\<lambda>i. i \<notin> recent_peers r present) ?peers)" by simp
          then show ?thesis by (simp add: el Nil sent')
        qed
      qed
      have el': "eligible_peers ?r' present = ?peers"
        using all by (simp add: eligible_peers_def recent_peers_def peers')
      show ?thesis
        using Cons.IH [OF ok' Cons.prems(2) m'] 
        by (simp add: r' el' peers' \<open>eligible_peers r present = e # es\<close> Nil m)
    next
      case (Cons e2 es2)
      have "e2 \<in> set (filter (\<lambda>i. i \<notin> recent_peers r present) ?peers)"
        using el Cons by simp
      then have e2: "e2 \<in> set ?peers" "e2 \<notin> recent_peers r present" by simp_all
      have "e2 \<noteq> e" using de Cons by auto
      moreover have "e2 \<noteq> remotes_id r" using e2(1) notme by auto
      ultimately have "e2 \<notin> recentlySentTo ?r'" using e2(2) by (simp add: sent')
      with e2(1) have notall: "\<not> set ?peers \<subseteq> recentlySentTo ?r'" by auto
      have "eligible_peers ?r' present
          = filter (\<lambda>i. i \<notin> insert e (insert (remotes_id r) (recent_peers r present))) ?peers"
        using notall by (simp add: eligible_peers_def recent_peers_def peers' sent')
      also have "\<dots> = filter (\<lambda>i. i \<noteq> e)
          (filter (\<lambda>i. i \<notin> recent_peers r present) ?peers)"
        using notme by (auto intro!: filter_cong)
      also have "\<dots> = es" using de by (auto simp: el filter_id_conv)
      finally have el': "eligible_peers ?r' present = es" .
      have "length ms \<le> m" using m m' by simp
      from Cons.IH [OF ok' Cons.prems(2) this]
      show ?thesis
        by (simp add: r' el' peers' \<open>eligible_peers r present = e # es\<close>)
    qed
  qed
qed


lemma onHello_keeps:
  "remotes_id (foldl onHello r hs) = remotes_id r"
  "recentlySentTo (foldl onHello r hs) = recentlySentTo r"
  "published (foldl onHello r hs) = published r"
  by (induction hs arbitrary: r) (simp_all add: onHello_def)

lemma newClock_settled:
  assumes "isGenesis r1 = Some b" and "sentTo_ok r1"
  shows "(snd (MqttRemotes_newClock r1 msgId present) = GENESIS) = b
       \<and> MqttRemotes_newClock r1 msgId present =
          (if b then (r1, GENESIS)
           else (case eligible_peers r1 present of
              [] \<Rightarrow> (r1\<lparr>recentlySentTo := insert (remotes_id r1) (recent_peers r1 present)\<rparr>,
                     Rejected (MeldError NONE_VISIBLE))
            | to # others \<Rightarrow>
                (r1\<lparr>recentlySentTo :=
                      insert to (insert (remotes_id r1) (recent_peers r1 present)),
                    published := published r1
                      @ [(\<lparr>toId = to, fromId = remotes_id r1, messageId = msgId\<rparr>,
                          NewClockRequest)]\<rparr>,
                 ClockOfReplyTo msgId)))"
proof (cases b)
  case True
  with assms show ?thesis by (simp add: MqttRemotes_newClock_def)
next
  case False
  show ?thesis
    using False assms(1)
    by (cases "eligible_peers r1 present")
      (simp_all add: MqttRemotes_newClock_def send_step [OF assms(2)])
qed

text \<open>
  C8. Once a clone whose \<^verbatim>\<open>isGenesis\<close> was pending has seen hello messages, \<^verbatim>\<open>newClock\<close>
  gives \<^verbatim>\<open>TreeClock.GENESIS\<close> exactly when the first hello carried the clone's own id, and
  then nothing is published. When the first hello carried another id, \<^verbatim>\<open>newClock\<close> sends a
  \<^verbatim>\<open>NewClock\<close> request: it is published to the first present peer that \<^verbatim>\<open>send\<close> may pick,
  which is recorded in \<^verbatim>\<open>recentlySentTo\<close>, and the clock is the one of the reply to that
  message; with no such peer nothing is published and \<^verbatim>\<open>newClock\<close> is rejected with
  \<^verbatim>\<open>NONE_VISIBLE\<close>. The set \<^verbatim>\<open>recentlySentTo\<close> is as the code keeps it: empty, or with the
  clone's own id in it.
\<close>

theorem newClock_first_hello:
  assumes "isGenesis r = None" and "sentTo_ok r"
  shows "(snd (MqttRemotes_newClock (foldl onHello r (h # hs)) msgId present) = GENESIS)
           = (h = remotes_id r)
       \<and> MqttRemotes_newClock (foldl onHello r (h # hs)) msgId present =
          (if h = remotes_id r then (foldl onHello r (h # hs), GENESIS)
           else (case eligible_peers r present of
              [] \<Rightarrow> ((foldl onHello r (h # hs))
                       \<lparr>recentlySentTo := insert (remotes_id r) (recent_peers r present)\<rparr>,
                     Rejected (MeldError NONE_VISIBLE))
            | to # others \<Rightarrow>
                ((foldl onHello r (h # hs))
                   \<lparr>recentlySentTo := insert to (insert (remotes_id r) (recent_peers r present)),
                    published := published r
                      @ [(\<lparr>toId = to, fromId = remotes_id r, messageId = msgId\<rparr>,
                          NewClockRequest)]\<rparr>,
                 ClockOfReplyTo msgId)))"
proof -
  let ?r1 = "foldl onHello r (h # hs)"
  have ok: "sentTo_ok ?r1"
    using assms(2) unfolding sentTo_ok_def onHello_keeps .
  have same: "eligible_peers ?r1 present = eligible_peers r present"
    "recent_peers ?r1 present = recent_peers r present"
    unfolding eligible_peers_def recent_peers_def present_peers_def onHello_keeps by simp_all
  show ?thesis
    using newClock_settled [OF isGenesis_first_hello [OF assms(1)] ok, of msgId present]
    unfolding same onHello_keeps .
qed

theorem newClock_first_hello_witness:
  "isGenesis remotes_A = None \<and> sentTo_ok remotes_A
   \<and> MqttRemotes_newClock (foldl onHello remotes_A [''A'', ''B'']) ''m1'' [''A'', ''B'']
       = (remotes_A\<lparr>isGenesis := Some True\<rparr>, GENESIS)
   \<and> MqttRemotes_newClock (foldl onHello remotes_A [''B'', ''A'']) ''m1'' [''A'', ''B'']
       = (remotes_A\<lparr>isGenesis := Some False, recentlySentTo := {''A'', ''B''},
            published := [(\<lparr>toId = ''B'', fromId = ''A'', messageId = ''m1''\<rparr>,
                           NewClockRequest)]\<rparr>,
          ClockOfReplyTo ''m1'')"
proof -
  have pending: "isGenesis remotes_A = None" by (simp add: remotes_A_def)
  have ok: "sentTo_ok remotes_A" by (simp add: sentTo_ok_def remotes_A_def)
  have e: "eligible_peers remotes_A [''A'', ''B''] = [''B'']"
    "recent_peers remotes_A [''A'', ''B''] = {}"
    by (simp_all add: eligible_peers_def recent_peers_def present_peers_def remotes_A_def)
  have f: "remotes_id remotes_A = ''A''" "published remotes_A = []"
    by (simp_all add: remotes_A_def)
  have sets: "{''B'', ''A''} = {''A'', ''B''}" by auto
  have h1: "foldl onHello remotes_A [''A'', ''B''] = remotes_A\<lparr>isGenesis := Some True\<rparr>"
    by (simp add: onHello_def Future_resolve_def remotes_A_def)
  have h2: "foldl onHello remotes_A [''B'', ''A''] = remotes_A\<lparr>isGenesis := Some False\<rparr>"
    by (simp add: onHello_def Future_resolve_def remotes_A_def)
  note own = newClock_first_hello [OF pending ok, of "''A''" "[''B'']" "''m1''" "[''A'', ''B'']",
      THEN conjunct2]
  note other = newClock_first_hello [OF pending ok, of "''B''" "[''A'']" "''m1''" "[''A'', ''B'']",
      THEN conjunct2]
  have a: "MqttRemotes_newClock (foldl onHello remotes_A [''A'', ''B'']) ''m1'' [''A'', ''B'']
       = (remotes_A\<lparr>isGenesis := Some True\<rparr>, GENESIS)"
    unfolding own by (simp add: f h1 [simplified])
  have b: "MqttRemotes_newClock (foldl onHello remotes_A [''B'', ''A'']) ''m1'' [''A'', ''B'']
       = (remotes_A\<lparr>isGenesis := Some False, recentlySentTo := {''A'', ''B''},
            published := [(\<lparr>toId = ''B'', fromId = ''A'', messageId = ''m1''\<rparr>,
                           NewClockRequest)]\<rparr>,
          ClockOfReplyTo ''m1'')"
    unfolding other by (simp add: e f h2 [simplified] sets)
  from pending ok a b show ?thesis by simp
qed

text \<open>
  C9. \<^verbatim>\<open>send\<close> picks its target among the present clones other than itself that are not in
  \<^verbatim>\<open>recentlySentTo\<close>, the set being cleared first when it holds every present peer: the
  request is published to the first of them, and afterwards \<^verbatim>\<open>recentlySentTo\<close> holds the
  target, the clone's own id and what the set held after the clearing. When there is none,
  \<^verbatim>\<open>send\<close> raises \<^verbatim>\<open>NONE_VISIBLE\<close> and nothing is published. The set \<^verbatim>\<open>recentlySentTo\<close> is as
  the code keeps it (empty, or with the clone's own id in it), and stays so. Hence the round
  robin: while the same clones are present, each listed once, requests sent one after the
  other go to the peers that may be picked at the start, in their order, and then to all the
  present peers in their order, again and again.
\<close>

theorem send_selects_eligible_peer:
  assumes "sentTo_ok r"
  shows "MqttRemotes_send r msgId present req =
           (case eligible_peers r present of
              [] \<Rightarrow> (r\<lparr>recentlySentTo := insert (remotes_id r) (recent_peers r present)\<rparr>,
                     Inl (MeldError NONE_VISIBLE))
            | to # others \<Rightarrow>
                (r\<lparr>recentlySentTo :=
                     insert to (insert (remotes_id r) (recent_peers r present)),
                   published := published r
                     @ [(\<lparr>toId = to, fromId = remotes_id r, messageId = msgId\<rparr>, req)]\<rparr>,
                 Inr msgId))
       \<and> sentTo_ok (fst (MqttRemotes_send r msgId present req))
       \<and> (distinct present \<longrightarrow>
            targets (sends r present ms)
              = targets r @ take (length ms)
                  (eligible_peers r present
                   @ concat (replicate (length ms) (present_peers r present))))"
proof (intro conjI impI)
  show "sentTo_ok (fst (MqttRemotes_send r msgId present req))"
    by (rule send_keeps)
next
  assume "distinct present"
  then show "targets (sends r present ms)
      = targets r @ take (length ms)
          (eligible_peers r present @ concat (replicate (length ms) (present_peers r present)))"
    by (rule sends_cycle [OF assms _ order_refl])
qed (rule send_step [OF assms])

theorem send_selects_eligible_peer_witness:
  "sentTo_ok remotes_A \<and> distinct [''A'', ''B'', ''C'']
   \<and> targets (sends remotes_A [''A'', ''B'', ''C'']
        [(''m1'', NewClockRequest), (''m2'', SnapshotRequest), (''m3'', RevupRequest)])
       = [''B'', ''C'', ''B'']
   \<and> sentTo_ok remotes_A_sent
   \<and> MqttRemotes_send remotes_A_sent ''m2'' [''A'', ''B'', ''C''] SnapshotRequest
       = (remotes_A\<lparr>recentlySentTo := {''A'', ''B'', ''C''},
            published := [(\<lparr>toId = ''C'', fromId = ''A'', messageId = ''m2''\<rparr>, SnapshotRequest)]\<rparr>,
          Inr ''m2'')
   \<and> MqttRemotes_send (remotes_A\<lparr>recentlySentTo := {''A'', ''B'', ''C''}\<rparr>) ''m3''
         [''A'', ''B'', ''C''] SnapshotRequest
       = (remotes_A\<lparr>recentlySentTo := {''A'', ''B''},
            published := [(\<lparr>toId = ''B'', fromId = ''A'', messageId = ''m3''\<rparr>, SnapshotRequest)]\<rparr>,
          Inr ''m3'')
   \<and> MqttRemotes_send remotes_A_sent ''m4'' [''A''] SnapshotRequest
       = (remotes_A\<lparr>recentlySentTo := {''A''}\<rparr>, Inl (MeldError NONE_VISIBLE))"
proof -
  let ?full = "remotes_A\<lparr>recentlySentTo := {''A'', ''B'', ''C''}\<rparr>"
  have ok0: "sentTo_ok remotes_A" by (simp add: sentTo_ok_def remotes_A_def)
  have ok: "sentTo_ok remotes_A_sent"
    by (simp add: sentTo_ok_def remotes_A_sent_def remotes_A_def)
  have ok2: "sentTo_ok ?full" by (simp add: sentTo_ok_def remotes_A_def)
  have e0: "eligible_peers remotes_A [''A'', ''B'', ''C''] = [''B'', ''C'']"
    "present_peers remotes_A [''A'', ''B'', ''C''] = [''B'', ''C'']"
    "targets remotes_A = []"
    by (simp_all add: eligible_peers_def recent_peers_def present_peers_def remotes_A_def
        targets_def)
  have e1: "eligible_peers remotes_A_sent [''A'', ''B'', ''C''] = [''C'']"
    "recent_peers remotes_A_sent [''A'', ''B'', ''C''] = {''A'', ''B''}"
    by (simp_all add: eligible_peers_def recent_peers_def present_peers_def remotes_A_sent_def
        remotes_A_def)
  have e2: "eligible_peers remotes_A_sent [''A''] = []"
    "recent_peers remotes_A_sent [''A''] = {}"
    by (simp_all add: eligible_peers_def recent_peers_def present_peers_def remotes_A_sent_def
        remotes_A_def)
  have e3: "eligible_peers ?full [''A'', ''B'', ''C''] = [''B'', ''C'']"
    "recent_peers ?full [''A'', ''B'', ''C''] = {}"
    by (simp_all add: eligible_peers_def recent_peers_def present_peers_def remotes_A_def)
  have f: "remotes_id remotes_A_sent = ''A''" "published remotes_A_sent = []"
    "remotes_id remotes_A = ''A''" "published remotes_A = []"
    by (simp_all add: remotes_A_sent_def remotes_A_def)
  have s: "remotes_A_sent\<lparr>recentlySentTo := X\<rparr> = remotes_A\<lparr>recentlySentTo := X\<rparr>" for X
    by (simp add: remotes_A_sent_def)
  have sets: "{''C'', ''A'', ''B''} = {''A'', ''B'', ''C''}" "{''B'', ''A''} = {''A'', ''B''}"
    by auto
  note round = send_selects_eligible_peer [OF ok0, where present = "[''A'', ''B'', ''C'']"
        and ms = "[(''m1'', NewClockRequest), (''m2'', SnapshotRequest), (''m3'', RevupRequest)]",
        THEN conjunct2, THEN conjunct2]
  note pick = send_selects_eligible_peer [OF ok, where present = "[''A'', ''B'', ''C'']"
        and msgId = "''m2''" and req = SnapshotRequest, THEN conjunct1]
  note clear = send_selects_eligible_peer [OF ok2, where present = "[''A'', ''B'', ''C'']"
        and msgId = "''m3''" and req = SnapshotRequest, THEN conjunct1]
  note none = send_selects_eligible_peer [OF ok, where present = "[''A'']"
        and msgId = "''m4''" and req = SnapshotRequest, THEN conjunct1]
  have a: "targets (sends remotes_A [''A'', ''B'', ''C'']
        [(''m1'', NewClockRequest), (''m2'', SnapshotRequest), (''m3'', RevupRequest)])
       = [''B'', ''C'', ''B'']"
    using round by (simp add: e0)
  have b: "MqttRemotes_send remotes_A_sent ''m2'' [''A'', ''B'', ''C''] SnapshotRequest
       = (remotes_A\<lparr>recentlySentTo := {''A'', ''B'', ''C''},
            published := [(\<lparr>toId = ''C'', fromId = ''A'', messageId = ''m2''\<rparr>, SnapshotRequest)]\<rparr>,
          Inr ''m2'')"
    unfolding pick by (simp add: e1 f s sets)
  have c: "MqttRemotes_send ?full ''m3'' [''A'', ''B'', ''C''] SnapshotRequest
       = (remotes_A\<lparr>recentlySentTo := {''A'', ''B''},
            published := [(\<lparr>toId = ''B'', fromId = ''A'', messageId = ''m3''\<rparr>, SnapshotRequest)]\<rparr>,
          Inr ''m3'')"
    unfolding clear by (simp add: e3 f sets)
  have d: "MqttRemotes_send remotes_A_sent ''m4'' [''A''] SnapshotRequest
       = (remotes_A\<lparr>recentlySentTo := {''A''}\<rparr>, Inl (MeldError NONE_VISIBLE))"
    unfolding none by (simp add: e2 f s)
  from ok0 ok a b c d show ?thesis by simp
qed

end
